theory Spec2Isabelle
  imports Complex_Main
begin

section \<open>Data model\<close>

text \<open>
  The level generator of the game (\<open>generateRandomPosition\<close>, \<open>generateEnemies\<close> and
  \<open>generateLevel\<close>) works on JavaScript numbers. They are modelled as mathematical reals:
  rounding and the values that only doubles have (the infinities, \<open>NaN\<close>) are not
  modelled, except for the one subtraction whose rounding decides whether a loop ends
  (\<open>doubleSub\<close> below). A level is a natural number: the store starts at level 1 and only ever adds 1.
  A position is the triple \<open>[x, y, z]\<close>; \<open>pos[0]\<close> is \<open>fst pos\<close> and \<open>pos[2]\<close> is
  \<open>snd (snd pos)\<close>.
\<close>

type_synonym vec3 = "real \<times> real \<times> real"

datatype obstacle_type = Rock

record obstacle =
  ob_position :: vec3
  ob_type :: obstacle_type
  ob_size :: real

datatype enemy_type = Tank | Turret | Bomber

record enemySpec =
  position :: vec3
  health :: real
  etype :: enemy_type
  speed :: real

text \<open>
  The fields of the store that the generator reads through \<open>useGameState.getState()\<close>,
  and its \<open>level\<close>. The obstacles have the type of the parameter of \<open>isPositionClear\<close>;
  \<open>safeZoneCenter\<close> is a pair \<open>(x, z)\<close>, read as \<open>safeZoneCenter[0]\<close> and
  \<open>safeZoneCenter[1]\<close>.
\<close>

record gameState =
  terrainObstacles :: "obstacle list"
  safeZoneCenter :: "real \<times> real"
  safeZoneRadius :: real
  safeZoneActive :: bool
  isTerrainReady :: bool
  level :: nat

text \<open>
  \<open>Math.random()\<close> is a global source. It is modelled as the infinite sequence of its
  draws together with the index of the next draw, which every function that draws
  returns updated.
\<close>

type_synonym random_source = "nat \<Rightarrow> real"

section \<open>Position validator\<close>

fun isPositionClear :: "real \<Rightarrow> real \<Rightarrow> obstacle list \<Rightarrow> real \<Rightarrow> bool" where
  "isPositionClear x z [] minClearance = True"
| "isPositionClear x z (obstacle # rest) minClearance =
     (let dx = fst (ob_position obstacle) - x;
          dz = snd (snd (ob_position obstacle)) - z;
          distance = sqrt (dx * dx + dz * dz);
          rockMultiplier = 2.5;
          requiredClearance = ob_size obstacle * rockMultiplier + minClearance
      in if distance < requiredClearance then False
         else isPositionClear x z rest minClearance)"

definition isWithinMapBoundaries :: "real \<Rightarrow> real \<Rightarrow> real \<Rightarrow> bool" where
  "isWithinMapBoundaries x z mapSize =
     (let halfMapSize = mapSize / 2;
          buffer = 2
      in x \<ge> - halfMapSize + buffer \<and> x \<le> halfMapSize - buffer \<and>
         z \<ge> - halfMapSize + buffer \<and> z \<le> halfMapSize - buffer)"

text \<open>The default \<open>mapSize = 100\<close> of \<open>isWithinMapBoundaries\<close>; every call uses it.\<close>

definition defaultMapSize :: real where
  "defaultMapSize = 100"

section \<open>Position search\<close>

text \<open>The separation loop of the first tier (\<open>isFarEnough\<close>, with its \<open>break\<close>).\<close>

fun isFarEnough :: "real \<Rightarrow> real \<Rightarrow> vec3 list \<Rightarrow> real \<Rightarrow> bool" where
  "isFarEnough x z [] minDistanceFromExisting = True"
| "isFarEnough x z (pos # rest) minDistanceFromExisting =
     (let dx = fst pos - x;
          dz = snd (snd pos) - z;
          distance = sqrt (dx * dx + dz * dz)
      in if distance < minDistanceFromExisting then False
         else isFarEnough x z rest minDistanceFromExisting)"

text \<open>
  Tier 1, the \<open>while (attempts_count < attempts)\<close> loop. Each iteration draws twice.
  \<open>None\<close> is the loop running out of attempts.
\<close>

function sampleLoop ::
  "obstacle list \<Rightarrow> random_source \<Rightarrow> real \<Rightarrow> vec3 list \<Rightarrow> real \<Rightarrow> real \<Rightarrow> nat \<Rightarrow> nat
     \<Rightarrow> vec3 option \<times> nat" where
  "sampleLoop obs rnd gridSize existingPositions minDistanceFromExisting attempts
       attempts_count k =
     (if real attempts_count < attempts then
        (let x = (rnd k - 0.5) * gridSize;
             z = (rnd (k + 1) - 0.5) * gridSize;
             y = 0.5
         in if \<not> isWithinMapBoundaries x z defaultMapSize then
              sampleLoop obs rnd gridSize existingPositions minDistanceFromExisting attempts
                (attempts_count + 1) (k + 2)
            else if \<not> isPositionClear x z obs 12 then
              sampleLoop obs rnd gridSize existingPositions minDistanceFromExisting attempts
                (attempts_count + 1) (k + 2)
            else if isFarEnough x z existingPositions minDistanceFromExisting then
              (Some (x, y, z), k + 2)
            else
              sampleLoop obs rnd gridSize existingPositions minDistanceFromExisting attempts
                (attempts_count + 1) (k + 2))
      else (None, k))"
  by pat_completeness auto
termination
proof (relation "measure (\<lambda>(obs, rnd, gridSize, ex, md, attempts, attempts_count, k).
          nat \<lceil>attempts\<rceil> - attempts_count)", goal_cases)
  case 1
  show ?case by simp
next
  case (2 obs rnd gridSize ex md attempts attempts_count k)
  then have "int attempts_count < \<lceil>attempts\<rceil>"
    by (simp add: less_ceiling_iff)
  then show ?case by simp
next
  case (3 obs rnd gridSize ex md attempts attempts_count k)
  then have "int attempts_count < \<lceil>attempts\<rceil>"
    by (simp add: less_ceiling_iff)
  then show ?case by simp
next
  case (4 obs rnd gridSize ex md attempts attempts_count k)
  then have "int attempts_count < \<lceil>attempts\<rceil>"
    by (simp add: less_ceiling_iff)
  then show ?case by simp
qed

text \<open>
  Tier 2, the two nested \<open>for\<close> loops over \<open>gridX\<close> and \<open>gridZ\<close> from \<open>-searchGrid\<close> to
  \<open>searchGrid\<close> in steps of 2. The inner loop returns out of both.
\<close>

definition searchGrid :: int where
  "searchGrid = 10"

function gridZLoop :: "obstacle list \<Rightarrow> real \<Rightarrow> int \<Rightarrow> int \<Rightarrow> vec3 option" where
  "gridZLoop obs gridSize gridX gridZ =
     (if gridZ \<le> searchGrid then
        (let x = (real_of_int gridX / real_of_int searchGrid) * (gridSize * 0.8);
             z = (real_of_int gridZ / real_of_int searchGrid) * (gridSize * 0.8);
             y = 0.5
         in if \<not> isWithinMapBoundaries x z defaultMapSize then
              gridZLoop obs gridSize gridX (gridZ + 2)
            else if isPositionClear x z obs 4 then Some (x, y, z)
            else gridZLoop obs gridSize gridX (gridZ + 2))
      else None)"
  by pat_completeness auto
termination
  by (relation "measure (\<lambda>(obs, gridSize, gridX, gridZ). nat (searchGrid + 2 - gridZ))")
    auto

function gridXLoop :: "obstacle list \<Rightarrow> real \<Rightarrow> int \<Rightarrow> vec3 option" where
  "gridXLoop obs gridSize gridX =
     (if gridX \<le> searchGrid then
        (case gridZLoop obs gridSize gridX (- searchGrid) of
           Some p \<Rightarrow> Some p
         | None \<Rightarrow> gridXLoop obs gridSize (gridX + 2))
      else None)"
  by pat_completeness auto
termination
  by (relation "measure (\<lambda>(obs, gridSize, gridX). nat (searchGrid + 2 - gridX))") auto

text \<open>
  Tier 3, the rings \<open>radius = gridSize / 2, gridSize / 2 - 5, ...\<close> while \<open>radius >= 5\<close>,
  and on each ring the angles \<open>0, pi / 8, ...\<close> while \<open>angle < 2 * pi\<close>.
\<close>

function angleLoop :: "obstacle list \<Rightarrow> real \<Rightarrow> real \<Rightarrow> vec3 option" where
  "angleLoop obs radius angle =
     (if angle < pi * 2 then
        (let x = cos angle * radius;
             z = sin angle * radius;
             y = 0.5
         in if \<not> isWithinMapBoundaries x z defaultMapSize then
              angleLoop obs radius (angle + pi / 8)
            else if isPositionClear x z obs 3 then Some (x, y, z)
            else angleLoop obs radius (angle + pi / 8))
      else None)"
  by pat_completeness auto
termination
proof (relation "measure (\<lambda>(obs, radius, angle). nat \<lceil>(pi * 2 - angle) / (pi / 8)\<rceil>)",
    goal_cases)
  case 1
  show ?case by simp
next
  case (2 obs radius angle)
  have step: "(pi * 2 - (angle + pi / 8)) / (pi / 8) = (pi * 2 - angle) / (pi / 8) - 1"
    by (simp add: field_simps)
  from 2 have "0 < (pi * 2 - angle) / (pi / 8)"
    by simp
  then have "0 < \<lceil>(pi * 2 - angle) / (pi / 8)\<rceil>"
    by (simp add: less_ceiling_iff)
  then show ?case
    unfolding in_measure prod.case step by simp
next
  case (3 obs radius angle)
  have step: "(pi * 2 - (angle + pi / 8)) / (pi / 8) = (pi * 2 - angle) / (pi / 8) - 1"
    by (simp add: field_simps)
  from 3 have "0 < (pi * 2 - angle) / (pi / 8)"
    by simp
  then have "0 < \<lceil>(pi * 2 - angle) / (pi / 8)\<rceil>"
    by (simp add: less_ceiling_iff)
  then show ?case
    unfolding in_measure prod.case step by simp
qed

function radiusLoop :: "obstacle list \<Rightarrow> real \<Rightarrow> vec3 option" where
  "radiusLoop obs radius =
     (if radius \<ge> 5 then
        (case angleLoop obs radius 0 of
           Some p \<Rightarrow> Some p
         | None \<Rightarrow> radiusLoop obs (radius - 5))
      else None)"
  by pat_completeness auto
termination
proof (relation "measure (\<lambda>(obs, radius). nat \<lceil>radius\<rceil>)", goal_cases)
  case 1
  show ?case by simp
next
  case (2 obs radius)
  then have "5 \<le> \<lceil>radius\<rceil>"
    by (simp add: le_ceiling_iff)
  moreover have "\<lceil>radius - 5\<rceil> = \<lceil>radius\<rceil> - 5"
    using ceiling_diff_numeral [of radius] by simp
  ultimately show ?case by simp
qed

text \<open>Tier 4, the list of fixed positions, and the unconditional last resort.\<close>

definition safePositions :: "vec3 list" where
  "safePositions =
     [(20, 0.5, 20), (- 20, 0.5, 20), (- 20, 0.5, - 20), (20, 0.5, - 20), (0, 0.5, 0)]"

fun safePositionLoop :: "obstacle list \<Rightarrow> vec3 list \<Rightarrow> vec3 option" where
  "safePositionLoop obs [] = None"
| "safePositionLoop obs (pos # rest) =
     (if isPositionClear (fst pos) (snd (snd pos)) obs 3 then Some pos
      else safePositionLoop obs rest)"

text \<open>
  \<open>generateRandomPosition(gridSize, existingPositions, minDistanceFromExisting, attempts)\<close>.
  The defaults \<open>minDistanceFromExisting = 5\<close> and \<open>attempts = 300\<close> are passed by the
  callers. The result is the position and the index of the next draw.
\<close>

definition generateRandomPosition ::
  "gameState \<Rightarrow> random_source \<Rightarrow> nat \<Rightarrow> real \<Rightarrow> vec3 list \<Rightarrow> real \<Rightarrow> real \<Rightarrow> vec3 \<times> nat" where
  "generateRandomPosition st rnd k gridSize existingPositions minDistanceFromExisting attempts =
     (let obs = terrainObstacles st in
      case sampleLoop obs rnd gridSize existingPositions minDistanceFromExisting attempts 0 k of
        (Some p, k') \<Rightarrow> (p, k')
      | (None, k') \<Rightarrow>
          (case gridXLoop obs gridSize (- searchGrid) of
             Some p \<Rightarrow> (p, k')
           | None \<Rightarrow>
               (case radiusLoop obs (gridSize / 2) of
                  Some p \<Rightarrow> (p, k')
                | None \<Rightarrow>
                    (case safePositionLoop obs safePositions of
                       Some p \<Rightarrow> (p, k')
                     | None \<Rightarrow> ((0, 0.5, 0), k')))))"

section \<open>Difficulty curve\<close>

definition baseEnemyCount :: int where
  "baseEnemyCount = 1"

text \<open>The count of the general branch of \<open>generateEnemies\<close> (every level but 1).\<close>

definition scaledEnemyCount :: "nat \<Rightarrow> int" where
  "scaledEnemyCount lv =
     (let maxEnemies = (if lv \<ge> 40 then 20 else 15)
      in if lv \<le> 10 then min (baseEnemyCount + \<lfloor>sqrt (real lv) * 1.25\<rfloor>) maxEnemies
         else if lv < 40 then min (baseEnemyCount + \<lfloor>sqrt (real lv) * 2\<rfloor>) maxEnemies
         else min (baseEnemyCount + \<lfloor>sqrt (real lv) * 2.3\<rfloor>) maxEnemies)"

text \<open>The count per level: the branch \<open>level === 1\<close> fixes \<open>enemyCount = 1\<close>.\<close>

definition enemyCountForLevel :: "nat \<Rightarrow> int" where
  "enemyCountForLevel lv = (if lv = 1 then 1 else scaledEnemyCount lv)"

definition gridSizeForLevel :: "nat \<Rightarrow> real" where
  "gridSizeForLevel lv = min (40 + real lv * 2) 70"

definition turretProbability :: "nat \<Rightarrow> real" where
  "turretProbability lv = min (0.1 + real lv * 0.02) 0.3"

definition bomberProbability :: "nat \<Rightarrow> real" where
  "bomberProbability lv = (if lv \<ge> 15 then min (0.15 + (real lv - 15) * 0.015) 0.3 else 0)"

definition maxTurrets :: nat where
  "maxTurrets = 3"

definition turretMaxRegenAttempts :: nat where
  "turretMaxRegenAttempts = 15"

text \<open>
  The type draw of one enemy: its type, health, speed and the turret count after it.
  \<open>speed\<close> is declared with the value 1 and the turret branch does not assign it.
\<close>

definition chooseEnemy :: "nat \<Rightarrow> real \<Rightarrow> nat \<Rightarrow> enemy_type \<times> real \<times> real \<times> nat" where
  "chooseEnemy lv random turretCount =
     (let declaredSpeed = 1
      in if lv \<ge> 15 \<and> random < bomberProbability lv then
           (Bomber, 40 + real lv * 3, 4.0, turretCount)
         else if random < turretProbability lv + bomberProbability lv \<and> turretCount < maxTurrets
         then
           (let turretBaseHealth = 75; linearScale = real lv * 9
            in (Turret, turretBaseHealth + linearScale, declaredSpeed, turretCount + 1))
         else
           (let tankBaseHealth = 50; linearScale = real lv * 9
            in (Tank, tankBaseHealth + linearScale, 1.3, turretCount)))"

section \<open>Enemy composition generator\<close>

text \<open>
  The extra validation against the terrain obstacles that \<open>generateEnemies\<close> runs on a
  candidate (the loop that sets \<open>isClear\<close>, and \<open>fallbackClear\<close> for the fallback).
\<close>

fun isClear :: "vec3 \<Rightarrow> obstacle list \<Rightarrow> bool" where
  "isClear candidatePosition [] = True"
| "isClear candidatePosition (obstacle # rest) =
     (let dx = fst (ob_position obstacle) - fst candidatePosition;
          dz = snd (snd (ob_position obstacle)) - snd (snd candidatePosition);
          distance = sqrt (dx * dx + dz * dz);
          minClearance = ob_size obstacle * 2.5 + 7
      in if distance < minClearance then False else isClear candidatePosition rest)"

text \<open>\<open>Vector2.distanceTo\<close> of three.js: the Euclidean distance of two points of the plane.\<close>

definition distanceTo :: "real \<times> real \<Rightarrow> real \<times> real \<Rightarrow> real" where
  "distanceTo v w =
     (let dx = fst v - fst w; dy = snd v - snd w in sqrt (dx * dx + dy * dy))"

text \<open>
  The position placed near the center of the safe zone once the attempts are used up:
  offset from the center at the drawn angle, or the center itself when that is obstructed.
\<close>

definition safeZoneFallback :: "gameState \<Rightarrow> real \<Rightarrow> vec3" where
  "safeZoneFallback st angle =
     (let radiusOffset = min (safeZoneRadius st * 0.8) 5;
          fallbackPosition =
            (fst (safeZoneCenter st) + cos angle * radiusOffset, 0.5,
             snd (safeZoneCenter st) + sin angle * radiusOffset)
      in if isClear fallbackPosition (terrainObstacles st) then fallbackPosition
         else (fst (safeZoneCenter st), 0.5, snd (safeZoneCenter st)))"

text \<open>
  The loop \<open>while (finalPosition === null && attempts < turretMaxRegenAttempts)\<close> of one
  enemy. \<open>None\<close> is the loop ending with \<open>finalPosition\<close> still \<open>null\<close>.
\<close>

function positionLoop ::
  "gameState \<Rightarrow> random_source \<Rightarrow> real \<Rightarrow> vec3 list \<Rightarrow> enemy_type \<Rightarrow> nat \<Rightarrow> nat
     \<Rightarrow> vec3 option \<times> nat" where
  "positionLoop st rnd gridSize existingPositions ty attempts k =
     (if attempts < turretMaxRegenAttempts then
        (case generateRandomPosition st rnd k gridSize existingPositions 5 300 of
           (candidatePosition, k1) \<Rightarrow>
             if \<not> isClear candidatePosition (terrainObstacles st) then
               positionLoop st rnd gridSize existingPositions ty (attempts + 1) k1
             else if (ty = Turret \<or> ty = Tank) \<and> safeZoneActive st then
               (let distanceToCenter =
                      distanceTo (fst candidatePosition, snd (snd candidatePosition))
                        (safeZoneCenter st)
                in if distanceToCenter \<le> safeZoneRadius st then (Some candidatePosition, k1)
                   else if attempts + 1 \<ge> turretMaxRegenAttempts then
                     (let angle = rnd k1 * pi * 2
                      in (Some (safeZoneFallback st angle), k1 + 1))
                   else positionLoop st rnd gridSize existingPositions ty (attempts + 1) k1)
             else (Some candidatePosition, k1))
      else (None, k))"
  by pat_completeness auto
termination
  by (relation "measure (\<lambda>(st, rnd, gridSize, ex, ty, attempts, k).
        turretMaxRegenAttempts - attempts)") auto

text \<open>The loop \<open>for (let i = 0; i < config.enemyCount; i++)\<close>.\<close>

function enemyLoop ::
  "gameState \<Rightarrow> random_source \<Rightarrow> nat \<Rightarrow> real \<Rightarrow> int \<Rightarrow> int \<Rightarrow> enemySpec list \<Rightarrow> vec3 list
     \<Rightarrow> nat \<Rightarrow> nat \<Rightarrow> enemySpec list \<times> nat" where
  "enemyLoop st rnd lv gridSize enemyCount i enemies existingPositions turretCount k =
     (if i < enemyCount then
        (let random = rnd k
         in case chooseEnemy lv random turretCount of
              (ty, hp, spd, turretCount') \<Rightarrow>
                (case positionLoop st rnd gridSize existingPositions ty 0 (k + 1) of
                   (found, k') \<Rightarrow>
                     (let finalPosition = (case found of None \<Rightarrow> (0, 0.5, 0) | Some p \<Rightarrow> p)
                      in enemyLoop st rnd lv gridSize enemyCount (i + 1)
                           (enemies @
                              [\<lparr>position = finalPosition, health = hp, etype = ty,
                                speed = spd\<rparr>])
                           (existingPositions @ [finalPosition]) turretCount' k')))
      else (enemies, k))"
  by pat_completeness auto
termination
  by (relation "measure (\<lambda>(st, rnd, lv, gridSize, enemyCount, i, es, ex, tc, k).
        nat (enemyCount - i))") auto

text \<open>The loop \<open>while (validPosition === null && attempts < maxAttempts)\<close> of level 1.\<close>

definition maxAttempts :: nat where
  "maxAttempts = 30"

function initialLoop ::
  "gameState \<Rightarrow> random_source \<Rightarrow> real \<Rightarrow> vec3 list \<Rightarrow> nat \<Rightarrow> nat \<Rightarrow> vec3 option \<times> nat" where
  "initialLoop st rnd gridSize existingPositions attempts k =
     (if attempts < maxAttempts then
        (case generateRandomPosition st rnd k gridSize existingPositions 5 300 of
           (candidatePosition, k1) \<Rightarrow>
             if isClear candidatePosition (terrainObstacles st) then (Some candidatePosition, k1)
             else initialLoop st rnd gridSize existingPositions (attempts + 1) k1)
      else (None, k))"
  by pat_completeness auto
termination
  by (relation "measure (\<lambda>(st, rnd, gridSize, ex, attempts, k). maxAttempts - attempts)") auto

text \<open>
  \<open>generateEnemies(level, playerPosition)\<close>: the list of enemy specifications and the
  index of the next draw.
\<close>

definition generateEnemies ::
  "gameState \<Rightarrow> random_source \<Rightarrow> nat \<Rightarrow> nat \<Rightarrow> vec3 \<Rightarrow> enemySpec list \<times> nat" where
  "generateEnemies st rnd k lv playerPosition =
     (if lv = 1 then
        (let gridSize = gridSizeForLevel lv;
             existingPositions = [playerPosition]
         in case initialLoop st rnd gridSize existingPositions 0 k of
              (found, k') \<Rightarrow>
                (let validPosition = (case found of None \<Rightarrow> (20, 0.5, 20) | Some p \<Rightarrow> p)
                 in ([\<lparr>position = validPosition, health = 85, etype = Tank, speed = 1.3\<rparr>],
                     k')))
      else
        (let enemyCount = scaledEnemyCount lv;
             gridSize = gridSizeForLevel lv;
             existingPositions = [playerPosition]
         in enemyLoop st rnd lv gridSize enemyCount 0 [] existingPositions 0 k))"

section \<open>Level generation orchestrator\<close>

text \<open>
  The callback that \<open>generateEnemiesWhenReady\<close> hands to the next animation frame: it
  generates the enemies and passes each to \<open>spawnEnemy\<close> of the store, in order. The
  result is the list of those calls' arguments.
\<close>

definition generateEnemiesWhenReady :: "gameState \<Rightarrow> random_source \<Rightarrow> nat \<Rightarrow> enemySpec list" where
  "generateEnemiesWhenReady st rnd k = fst (generateEnemies st rnd k 1 (0, 0.5, 0))"

section \<open>The position search with budgets, and the subtraction of doubles\<close>

text \<open>
  The loops of the first and third tier run as often as \<open>attempts\<close> and \<open>gridSize\<close> say.
  To count their work, each is given a budget of iterations here: the body is the one of
  the loop above, and \<open>None\<close> is the budget running out before the loop ends. The loops of
  the second and fourth tier have constant bounds (121 lattice points, 5 fixed positions).
\<close>

fun sampleLoopFuel ::
  "nat \<Rightarrow> obstacle list \<Rightarrow> random_source \<Rightarrow> real \<Rightarrow> vec3 list \<Rightarrow> real \<Rightarrow> real \<Rightarrow> nat \<Rightarrow> nat
     \<Rightarrow> (vec3 option \<times> nat) option" where
  "sampleLoopFuel 0 obs rnd gridSize existingPositions minDistanceFromExisting attempts
       attempts_count k =
     (if real attempts_count < attempts then None else Some (None, k))"
| "sampleLoopFuel (Suc fuel) obs rnd gridSize existingPositions minDistanceFromExisting attempts
       attempts_count k =
     (if real attempts_count < attempts then
        (let x = (rnd k - 0.5) * gridSize;
             z = (rnd (k + 1) - 0.5) * gridSize;
             y = 0.5
         in if \<not> isWithinMapBoundaries x z defaultMapSize then
              sampleLoopFuel fuel obs rnd gridSize existingPositions minDistanceFromExisting
                attempts (attempts_count + 1) (k + 2)
            else if \<not> isPositionClear x z obs 12 then
              sampleLoopFuel fuel obs rnd gridSize existingPositions minDistanceFromExisting
                attempts (attempts_count + 1) (k + 2)
            else if isFarEnough x z existingPositions minDistanceFromExisting then
              Some (Some (x, y, z), k + 2)
            else
              sampleLoopFuel fuel obs rnd gridSize existingPositions minDistanceFromExisting
                attempts (attempts_count + 1) (k + 2))
      else Some (None, k))"

fun angleLoopFuel :: "nat \<Rightarrow> obstacle list \<Rightarrow> real \<Rightarrow> real \<Rightarrow> vec3 option option" where
  "angleLoopFuel 0 obs radius angle = (if angle < pi * 2 then None else Some None)"
| "angleLoopFuel (Suc fuel) obs radius angle =
     (if angle < pi * 2 then
        (let x = cos angle * radius;
             z = sin angle * radius;
             y = 0.5
         in if \<not> isWithinMapBoundaries x z defaultMapSize then
              angleLoopFuel fuel obs radius (angle + pi / 8)
            else if isPositionClear x z obs 3 then Some (Some (x, y, z))
            else angleLoopFuel fuel obs radius (angle + pi / 8))
      else Some None)"

text \<open>
  The ring loop takes the subtraction that \<open>radius -= 5\<close> uses as a parameter: the exact
  one of the reals, or \<open>doubleSub\<close>. \<open>rings\<close> is the budget of rings, \<open>angles\<close> the budget of
  the angle loop on each ring.
\<close>

fun radiusLoopFuel ::
  "(real \<Rightarrow> real \<Rightarrow> real) \<Rightarrow> nat \<Rightarrow> nat \<Rightarrow> obstacle list \<Rightarrow> real \<Rightarrow> vec3 option option" where
  "radiusLoopFuel sub 0 angles obs radius = (if radius \<ge> 5 then None else Some None)"
| "radiusLoopFuel sub (Suc rings) angles obs radius =
     (if radius \<ge> 5 then
        (case angleLoopFuel angles obs radius 0 of
           None \<Rightarrow> None
         | Some (Some p) \<Rightarrow> Some (Some p)
         | Some None \<Rightarrow> radiusLoopFuel sub rings angles obs (sub radius 5))
      else Some None)"

text \<open>
  \<open>generateRandomPosition\<close> with the budgets \<open>samples\<close>, \<open>rings\<close> and \<open>angles\<close>.
\<close>

definition generateRandomPositionFuel ::
  "(real \<Rightarrow> real \<Rightarrow> real) \<Rightarrow> nat \<Rightarrow> nat \<Rightarrow> nat \<Rightarrow> gameState \<Rightarrow> random_source \<Rightarrow> nat \<Rightarrow> real
     \<Rightarrow> vec3 list \<Rightarrow> real \<Rightarrow> real \<Rightarrow> (vec3 \<times> nat) option" where
  "generateRandomPositionFuel sub samples rings angles st rnd k gridSize existingPositions
       minDistanceFromExisting attempts =
     (let obs = terrainObstacles st in
      case sampleLoopFuel samples obs rnd gridSize existingPositions minDistanceFromExisting
             attempts 0 k of
        None \<Rightarrow> None
      | Some (Some p, k') \<Rightarrow> Some (p, k')
      | Some (None, k') \<Rightarrow>
          (case gridXLoop obs gridSize (- searchGrid) of
             Some p \<Rightarrow> Some (p, k')
           | None \<Rightarrow>
               (case radiusLoopFuel sub rings angles obs (gridSize / 2) of
                  None \<Rightarrow> None
                | Some (Some p) \<Rightarrow> Some (p, k')
                | Some None \<Rightarrow>
                    (case safePositionLoop obs safePositions of
                       Some p \<Rightarrow> Some (p, k')
                     | None \<Rightarrow> Some ((0, 0.5, 0), k')))))"

text \<open>
  The subtraction of two doubles: the exact difference, rounded to the nearest double
  (53 significant bits), a tie to the even one. Overflow and subnormal numbers are left
  out. It is used for \<open>radius -= 5\<close> only, where the rounding decides whether the ring loop
  ends: above \<open>2 ^ 56\<close> the doubles are 16 or more apart and \<open>radius - 5\<close> rounds back to
  \<open>radius\<close>; below \<open>2 ^ 53\<close> the difference is exact.
\<close>

definition roundEven :: "real \<Rightarrow> int" where
  "roundEven q =
     (let n = \<lfloor>q\<rfloor>; d = q - real_of_int n
      in if d < 1 / 2 then n else if d > 1 / 2 then n + 1 else if even n then n else n + 1)"

definition roundToDouble :: "real \<Rightarrow> real" where
  "roundToDouble x =
     (if x = 0 then 0
      else (let e = \<lfloor>log 2 \<bar>x\<bar>\<rfloor>;
                u = 2 powr (real_of_int e - 52)
            in real_of_int (roundEven (x / u)) * u))"

definition doubleSub :: "real \<Rightarrow> real \<Rightarrow> real" where
  "doubleSub a b = roundToDouble (a - b)"

section \<open>The lattice of the second tier\<close>

text \<open>
  The values that \<open>gridX\<close> and \<open>gridZ\<close> take in the loops of the second tier, and the
  points they give, in the order of the scan. These definitions state the lattice; that the
  loops \<open>gridXLoop\<close> and \<open>gridZLoop\<close> scan exactly it is proved below.
\<close>

definition latticeSteps :: "int list" where
  "latticeSteps = [- 10, - 8, - 6, - 4, - 2, 0, 2, 4, 6, 8, 10]"

text \<open>
  The candidate of one pair \<open>(gridX, gridZ)\<close>.
\<close>

definition latticePoint :: "real \<Rightarrow> int \<Rightarrow> int \<Rightarrow> real \<times> real" where
  "latticePoint gridSize gridX gridZ =
     ((real_of_int gridX / 10) * (gridSize * 0.8), (real_of_int gridZ / 10) * (gridSize * 0.8))"

text \<open>
  All candidates, \<open>gridX\<close> outside and \<open>gridZ\<close> inside.
\<close>

definition latticePoints :: "real \<Rightarrow> (real \<times> real) list" where
  "latticePoints gridSize =
     concat (map (\<lambda>gridX. map (latticePoint gridSize gridX) latticeSteps) latticeSteps)"

text \<open>
  The test of the second tier on a candidate: the map boundaries and clearance 4.
\<close>

definition latticeAccepts :: "obstacle list \<Rightarrow> real \<times> real \<Rightarrow> bool" where
  "latticeAccepts obs = (\<lambda>(x, z). isWithinMapBoundaries x z 100 \<and> isPositionClear x z obs 4)"

text \<open>
  The values from \<open>a\<close> up to \<open>searchGrid\<close> in steps of 2, as both loops count.
\<close>

function stepsFrom :: "int \<Rightarrow> int list" where
  "stepsFrom a = (if a \<le> searchGrid then a # stepsFrom (a + 2) else [])"
  by pat_completeness auto
termination
  by (relation "measure (\<lambda>a. nat (searchGrid + 2 - a))") auto

section \<open>Example stores\<close>

text \<open>
  A rock of a given size on the ground at \<open>(x, z)\<close>.
\<close>

definition rock :: "real \<Rightarrow> real \<Rightarrow> real \<Rightarrow> obstacle" where
  "rock x z s = \<lparr>ob_position = (x, 0, z), ob_type = Rock, ob_size = s\<rparr>"

text \<open>
  An open field: no obstacle, safe zone inactive.
\<close>

definition openField :: gameState where
  "openField = \<lparr>terrainObstacles = [], safeZoneCenter = (0, 0), safeZoneRadius = 50,
     safeZoneActive = False, isTerrainReady = True, level = 2\<rparr>"

text \<open>
  An active safe zone of radius 7 around \<open>(47, 0)\<close>, one unit inside the map's buffer.
\<close>

definition edgeZone :: gameState where
  "edgeZone = \<lparr>terrainObstacles = [], safeZoneCenter = (47, 0), safeZoneRadius = 7,
     safeZoneActive = True, isTerrainReady = True, level = 2\<rparr>"

text \<open>
  One large rock at \<open>(-40, -40)\<close>: at grid size 50 its clearance of \<open>42.4 * 2.5 + 4 = 110\<close>
  leaves only the lattice point \<open>(40, 40)\<close> free.
\<close>

definition cornerRock :: gameState where
  "cornerRock =
     \<lparr>terrainObstacles = [\<lparr>ob_position = (- 40, 0, - 40), ob_type = Rock, ob_size = 42.4\<rparr>],
      safeZoneCenter = (0, 0), safeZoneRadius = 50, safeZoneActive = False,
      isTerrainReady = True, level = 5\<rparr>"

text \<open>
  Four rocks of size 3.2 around the player, whose clearance \<open>3.2 * 2.5 + 12 = 20\<close> covers
  the whole square the first tier samples at level 2, and a small rock 10 units from the
  first lattice point \<open>(-35.2, -35.2)\<close>: far enough for the second tier (clearance 8), too
  near for the extra check of the generator (clearance 11). The safe zone is active, of
  radius 10 around \<open>(20, 20)\<close>.
\<close>

definition rockyField :: gameState where
  "rockyField =
     \<lparr>terrainObstacles =
        [rock 11 11 3.2, rock (- 11) 11 3.2, rock (- 11) (- 11) 3.2, rock 11 (- 11) 3.2,
         rock (- 35.2) (- 25.2) 1.6],
      safeZoneCenter = (20, 20), safeZoneRadius = 10, safeZoneActive = True,
      isTerrainReady = True, level = 2\<rparr>"

text \<open>
  A grid size beyond the range in which \<open>radius - 5\<close> is exact in doubles, and a store
  whose only obstacle is a rock of size 0 at the origin: it blocks the one lattice point
  of that grid that lies inside the map.
\<close>

definition hugeGridSize :: real where
  "hugeGridSize = 10 ^ 18"

definition originRock :: gameState where
  "originRock =
     \<lparr>terrainObstacles = [rock 0 0 0], safeZoneCenter = (0, 0), safeZoneRadius = 50,
      safeZoneActive = False, isTerrainReady = True, level = 1\<rparr>"

section \<open>Auxiliary facts\<close>

subsection \<open>Square roots\<close>

lemma sqrt_ge_of: "0 \<le> c \<Longrightarrow> c * c \<le> x \<Longrightarrow> c \<le> sqrt x"
  by (metis real_sqrt_le_mono real_sqrt_abs2 abs_of_nonneg power2_eq_square real_sqrt_abs)

lemma sqrt_lt_of: "0 \<le> c \<Longrightarrow> x < c * c \<Longrightarrow> sqrt x < c"
  by (metis real_sqrt_less_mono real_sqrt_abs2 abs_of_nonneg)

lemma sqrt_less_iff_sq: "0 \<le> c \<Longrightarrow> (sqrt x < c) = (x < c * c)"
  by (metis abs_of_nonneg real_sqrt_abs2 real_sqrt_less_iff)

lemma sqrt_le_iff_sq: "0 \<le> c \<Longrightarrow> (sqrt x \<le> c) = (x \<le> c * c)"
  by (metis abs_of_nonneg real_sqrt_abs2 real_sqrt_le_iff)

lemma square_le: "\<bar>a\<bar> \<le> c \<Longrightarrow> a * a \<le> c * (c::real)"
  using mult_mono [of "\<bar>a\<bar>" c "\<bar>a\<bar>" c] by simp

subsection \<open>The tiers of the position search\<close>

text \<open>
  The recursive equations of the loops are unfolded by hand, one step at a time. Each loop
  gets an induction rule with the premise of one more step only.
\<close>

declare sampleLoop.simps [simp del] gridZLoop.simps [simp del] gridXLoop.simps [simp del]
  angleLoop.simps [simp del] radiusLoop.simps [simp del] positionLoop.simps [simp del]
  enemyLoop.simps [simp del] initialLoop.simps [simp del]

lemma sampleLoop_induct_simple [case_names step]:
  assumes "\<And>n k. (real n < att \<Longrightarrow> P (n + 1) (k + 2)) \<Longrightarrow> P n k"
  shows "P n (k::nat)"
proof (induction "nat \<lceil>att\<rceil> - n" arbitrary: n k rule: less_induct)
  case (less n k)
  show ?case
  proof (rule assms)
    assume "real n < att"
    then have "int n < \<lceil>att\<rceil>" by (simp add: less_ceiling_iff)
    then have "nat \<lceil>att\<rceil> - (n + 1) < nat \<lceil>att\<rceil> - n" by linarith
    then show "P (n + 1) (k + 2)" by (rule less.hyps)
  qed
qed

lemma sampleLoop_Some:
  "sampleLoop obs rnd g ex md att n k = (Some p, k') \<Longrightarrow>
     isWithinMapBoundaries (fst p) (snd (snd p)) defaultMapSize \<and>
     isPositionClear (fst p) (snd (snd p)) obs 12 \<and>
     isFarEnough (fst p) (snd (snd p)) ex md \<and> fst (snd p) = 0.5"
proof (induction n k rule: sampleLoop_induct_simple [where att = att])
  case (step n k)
  from step.prems step.IH show ?case
    by (subst (asm) sampleLoop.simps) (auto simp: Let_def split: if_splits)
qed

lemma sampleLoop_draws:
  "k \<le> snd (sampleLoop obs rnd g ex md att n k) \<and>
   snd (sampleLoop obs rnd g ex md att n k) \<le> k + 2 * (nat \<lceil>att\<rceil> - n)"
proof (induction n k rule: sampleLoop_induct_simple [where att = att])
  case (step n k)
  show ?case
  proof (cases "real n < att")
    case False
    then show ?thesis by (subst sampleLoop.simps, subst (2) sampleLoop.simps) simp
  next
    case True
    then have "int n < \<lceil>att\<rceil>" by (simp add: less_ceiling_iff)
    then have *: "2 * (nat \<lceil>att\<rceil> - (n + 1)) + 2 \<le> 2 * (nat \<lceil>att\<rceil> - n)" by linarith
    show ?thesis
      using True step.IH [OF True] *
      by (subst sampleLoop.simps, subst (3) sampleLoop.simps) (simp add: Let_def)
  qed
qed

lemma sampleLoop_rejects:
  assumes "\<And>j. \<not> isPositionClear ((rnd j - 0.5) * g) ((rnd (j + 1) - 0.5) * g) obs 12"
  shows "sampleLoop obs rnd g ex md att n k = (None, k + 2 * (nat \<lceil>att\<rceil> - n))"
proof (induction n k rule: sampleLoop_induct_simple [where att = att])
  case (step n k)
  show ?case
  proof (cases "real n < att")
    case False
    then have "nat \<lceil>att\<rceil> - n = 0" by (simp add: less_ceiling_iff)
    with False show ?thesis by (subst sampleLoop.simps) simp
  next
    case True
    then have "int n < \<lceil>att\<rceil>" by (simp add: less_ceiling_iff)
    then have *: "k + 2 + 2 * (nat \<lceil>att\<rceil> - (n + 1)) = k + 2 * (nat \<lceil>att\<rceil> - n)" by linarith
    from True step.IH [OF True] assms [of k] * show ?thesis
      by (subst sampleLoop.simps) (simp add: Let_def)
  qed
qed

lemma gridZLoop_induct_simple [case_names step]:
  assumes "\<And>gz. (gz \<le> searchGrid \<Longrightarrow> P (gz + 2)) \<Longrightarrow> P gz"
  shows "P gz"
proof (induction "nat (searchGrid + 2 - gz)" arbitrary: gz rule: less_induct)
  case (less gz)
  show ?case
  proof (rule assms)
    assume "gz \<le> searchGrid"
    then have "nat (searchGrid + 2 - (gz + 2)) < nat (searchGrid + 2 - gz)" by linarith
    then show "P (gz + 2)" by (rule less.hyps)
  qed
qed

lemma gridZLoop_Some:
  "gridZLoop obs g gx gz = Some p \<Longrightarrow>
     isWithinMapBoundaries (fst p) (snd (snd p)) defaultMapSize \<and>
     isPositionClear (fst p) (snd (snd p)) obs 4 \<and> fst (snd p) = 0.5"
proof (induction gz rule: gridZLoop_induct_simple)
  case (step gz)
  from step.prems step.IH show ?case
    by (subst (asm) gridZLoop.simps) (auto simp: Let_def split: if_splits)
qed

lemma gridXLoop_Some:
  "gridXLoop obs g gx = Some p \<Longrightarrow>
     isWithinMapBoundaries (fst p) (snd (snd p)) defaultMapSize \<and>
     isPositionClear (fst p) (snd (snd p)) obs 4 \<and> fst (snd p) = 0.5"
proof (induction gx rule: gridZLoop_induct_simple)
  case (step gx)
  from step.prems step.IH gridZLoop_Some [of obs g gx "- searchGrid" p] show ?case
    by (subst (asm) gridXLoop.simps) (auto split: if_splits option.splits)
qed

lemma angleLoop_induct_simple [case_names step]:
  assumes "\<And>a. (a < pi * 2 \<Longrightarrow> P (a + pi / 8)) \<Longrightarrow> P a"
  shows "P a"
proof (induction "nat \<lceil>(pi * 2 - a) / (pi / 8)\<rceil>" arbitrary: a rule: less_induct)
  case (less a)
  show ?case
  proof (rule assms)
    assume a: "a < pi * 2"
    have step: "(pi * 2 - (a + pi / 8)) / (pi / 8) = (pi * 2 - a) / (pi / 8) - 1"
      by (simp add: field_simps)
    from a have "0 < (pi * 2 - a) / (pi / 8)" by simp
    then have "0 < \<lceil>(pi * 2 - a) / (pi / 8)\<rceil>" by (simp add: less_ceiling_iff)
    then have "nat \<lceil>(pi * 2 - (a + pi / 8)) / (pi / 8)\<rceil> < nat \<lceil>(pi * 2 - a) / (pi / 8)\<rceil>"
      unfolding step by simp
    then show "P (a + pi / 8)" by (rule less.hyps)
  qed
qed

lemma angleLoop_Some:
  "angleLoop obs r a = Some p \<Longrightarrow>
     isWithinMapBoundaries (fst p) (snd (snd p)) defaultMapSize \<and>
     isPositionClear (fst p) (snd (snd p)) obs 3 \<and> fst (snd p) = 0.5"
proof (induction a rule: angleLoop_induct_simple)
  case (step a)
  from step.prems step.IH show ?case
    by (subst (asm) angleLoop.simps) (auto simp: Let_def split: if_splits)
qed

lemma radiusLoop_Some:
  "radiusLoop obs r = Some p \<Longrightarrow>
     isWithinMapBoundaries (fst p) (snd (snd p)) defaultMapSize \<and>
     isPositionClear (fst p) (snd (snd p)) obs 3 \<and> fst (snd p) = 0.5"
proof (induction obs r rule: radiusLoop.induct)
  case (1 obs r)
  from "1.prems" "1.IH" angleLoop_Some [of obs r 0 p] show ?case
    by (subst (asm) radiusLoop.simps) (auto split: if_splits option.splits)
qed

lemma safePositionLoop_Some:
  "safePositionLoop obs ps = Some p \<Longrightarrow> p \<in> set ps \<and> isPositionClear (fst p) (snd (snd p)) obs 3"
  by (induction ps) (auto split: if_splits)

lemma safePositions_within:
  "p \<in> set safePositions \<Longrightarrow>
     isWithinMapBoundaries (fst p) (snd (snd p)) defaultMapSize \<and> fst (snd p) = 0.5"
  by (auto simp: safePositions_def isWithinMapBoundaries_def defaultMapSize_def)

lemma center_within: "isWithinMapBoundaries 0 0 defaultMapSize"
  by (simp add: isWithinMapBoundaries_def defaultMapSize_def)

lemma generateRandomPosition_within:
  assumes "generateRandomPosition st rnd k g ex md att = (p, k')"
  shows "isWithinMapBoundaries (fst p) (snd (snd p)) defaultMapSize \<and> fst (snd p) = 0.5"
proof -
  let ?obs = "terrainObstacles st"
  obtain r1 k1 where s: "sampleLoop ?obs rnd g ex md att 0 k = (r1, k1)"
    by (cases "sampleLoop ?obs rnd g ex md att 0 k")
  show ?thesis
  proof (cases r1)
    case (Some q)
    with s assms have "p = q" by (simp add: generateRandomPosition_def)
    with Some s sampleLoop_Some [of ?obs rnd g ex md att 0 k q k1] show ?thesis by simp
  next
    case None
    note t1 = None
    show ?thesis
    proof (cases "gridXLoop ?obs g (- searchGrid)")
      case (Some q)
      with s t1 assms have "p = q" by (simp add: generateRandomPosition_def)
      with Some gridXLoop_Some [of ?obs g "- searchGrid" q] show ?thesis by simp
    next
      case None
      note t2 = None
      show ?thesis
      proof (cases "radiusLoop ?obs (g / 2)")
        case (Some q)
        with s t1 t2 assms have "p = q" by (simp add: generateRandomPosition_def)
        with Some radiusLoop_Some [of ?obs "g / 2" q] show ?thesis by simp
      next
        case None
        note t3 = None
        show ?thesis
        proof (cases "safePositionLoop ?obs safePositions")
          case (Some q)
          with s t1 t2 t3 assms have "p = q" by (simp add: generateRandomPosition_def)
          with Some safePositionLoop_Some [of ?obs safePositions q] safePositions_within [of q]
          show ?thesis by simp
        next
          case None
          with s t1 t2 t3 assms have "p = (0, 0.5, 0)" by (simp add: generateRandomPosition_def)
          with center_within show ?thesis by simp
        qed
      qed
    qed
  qed
qed

lemma generateRandomPosition_draws:
  "k \<le> snd (generateRandomPosition st rnd k g ex md att) \<and>
   snd (generateRandomPosition st rnd k g ex md att) \<le> k + 2 * nat \<lceil>att\<rceil>"
  using sampleLoop_draws [of k "terrainObstacles st" rnd g ex md att 0]
  by (auto simp: generateRandomPosition_def Let_def split: prod.splits option.splits)

lemma generateRandomPosition_level [simp]:
  "generateRandomPosition (st\<lparr>level := l\<rparr>) = generateRandomPosition st"
  by (intro ext) (simp add: generateRandomPosition_def)

lemma isPositionClear_blocked:
  "b \<in> set obs \<Longrightarrow>
   sqrt ((fst (ob_position b) - x) * (fst (ob_position b) - x) +
         (snd (snd (ob_position b)) - z) * (snd (snd (ob_position b)) - z))
     < ob_size b * 2.5 + c \<Longrightarrow>
   \<not> isPositionClear x z obs c"
  by (induction obs) (auto simp: Let_def)

subsection \<open>The second tier scans the lattice\<close>

text \<open>
  The loops of the second tier return the first point of \<open>latticePoints\<close> that
  \<open>latticeAccepts\<close>, whatever the obstacles are.
\<close>

declare stepsFrom.simps [simp del]

lemma stepsFrom_lattice: "stepsFrom (- searchGrid) = latticeSteps"
  by (simp add: stepsFrom.simps searchGrid_def latticeSteps_def)

lemma find_app:
  "find P (xs @ ys) = (case find P xs of Some x \<Rightarrow> Some x | None \<Rightarrow> find P ys)"
  by (induction xs) simp_all

lemma gridZLoop_step:
  "gz \<le> searchGrid \<Longrightarrow>
     gridZLoop obs g gx gz =
       (if latticeAccepts obs (latticePoint g gx gz)
        then Some (fst (latticePoint g gx gz), 0.5, snd (latticePoint g gx gz))
        else gridZLoop obs g gx (gz + 2))"
  by (subst gridZLoop.simps)
    (auto simp: Let_def latticePoint_def latticeAccepts_def searchGrid_def defaultMapSize_def)

lemma gridZLoop_stop: "\<not> gz \<le> searchGrid \<Longrightarrow> gridZLoop obs g gx gz = None"
  by (subst gridZLoop.simps) simp

lemma gridZLoop_find:
  "gridZLoop obs g gx gz =
     map_option (\<lambda>(x, z). (x, 0.5, z))
       (find (latticeAccepts obs) (map (latticePoint g gx) (stepsFrom gz)))"
proof (induction gz rule: gridZLoop_induct_simple)
  case (step gz)
  show ?case
  proof (cases "gz \<le> searchGrid")
    case False
    then show ?thesis
      by (subst stepsFrom.simps) (simp add: gridZLoop_stop)
  next
    case True
    from True step.IH [OF True] show ?thesis
      by (subst stepsFrom.simps) (simp add: gridZLoop_step case_prod_unfold)
  qed
qed

lemma gridXLoop_find:
  "gridXLoop obs g gx =
     map_option (\<lambda>(x, z). (x, 0.5, z))
       (find (latticeAccepts obs)
          (concat (map (\<lambda>gridX. map (latticePoint g gridX) latticeSteps) (stepsFrom gx))))"
proof (induction gx rule: gridZLoop_induct_simple)
  case (step gx)
  show ?case
  proof (cases "gx \<le> searchGrid")
    case False
    then show ?thesis
      by (subst gridXLoop.simps, subst stepsFrom.simps) simp
  next
    case True
    from True step.IH [OF True] show ?thesis
      by (subst gridXLoop.simps, subst stepsFrom.simps)
        (simp add: gridZLoop_find stepsFrom_lattice find_app split: option.splits)
  qed
qed

lemma gridXLoop_lattice:
  "gridXLoop obs g (- searchGrid) =
     map_option (\<lambda>(x, z). (x, 0.5, z)) (find (latticeAccepts obs) (latticePoints g))"
  by (simp add: gridXLoop_find stepsFrom_lattice latticePoints_def)

lemma length_latticePoints: "length (latticePoints g) = 121"
  by (simp add: latticePoints_def latticeSteps_def)

subsection \<open>The difficulty curve\<close>

lemma scaled_ge_1: "1 \<le> scaledEnemyCount lv"
  by (simp add: scaledEnemyCount_def baseEnemyCount_def Let_def)

lemma scaled_low_le: "lv \<le> 10 \<Longrightarrow> scaledEnemyCount lv \<le> 4"
proof -
  assume a: "lv \<le> 10"
  have "sqrt (real lv) \<le> sqrt 10" using a by simp
  moreover have "sqrt 10 < 3.2" by (rule sqrt_lt_of) simp_all
  ultimately have "sqrt (real lv) < 3.2" by linarith
  then have "sqrt (real lv) * 1.25 < 4" by simp
  then have "\<lfloor>sqrt (real lv) * 1.25\<rfloor> < 4" by (simp add: floor_less_iff)
  then show ?thesis using a by (simp add: scaledEnemyCount_def baseEnemyCount_def)
qed

lemma scaled_mid_ge: "10 < lv \<Longrightarrow> lv < 40 \<Longrightarrow> 7 \<le> scaledEnemyCount lv"
proof -
  assume a: "10 < lv" "lv < 40"
  have "(3::real) \<le> sqrt 11" by (rule sqrt_ge_of) simp_all
  moreover have "sqrt 11 \<le> sqrt (real lv)" using a by simp
  ultimately have "6 \<le> sqrt (real lv) * 2" by linarith
  then have "6 \<le> \<lfloor>sqrt (real lv) * 2\<rfloor>" by (simp add: le_floor_iff)
  then show ?thesis using a by (simp add: scaledEnemyCount_def baseEnemyCount_def)
qed

lemma scaled_high_ge: "40 \<le> lv \<Longrightarrow> 15 \<le> scaledEnemyCount lv"
proof -
  assume a: "40 \<le> lv"
  have "(6.1::real) \<le> sqrt 40" by (rule sqrt_ge_of) simp_all
  moreover have "sqrt 40 \<le> sqrt (real lv)" using a by simp
  ultimately have "14 \<le> sqrt (real lv) * 2.3" by linarith
  then have "14 \<le> \<lfloor>sqrt (real lv) * 2.3\<rfloor>" by (simp add: le_floor_iff)
  then show ?thesis using a by (simp add: scaledEnemyCount_def baseEnemyCount_def)
qed

lemma scaled_bound: "scaledEnemyCount lv \<le> (if lv < 40 then 15 else 20)"
  by (simp add: scaledEnemyCount_def Let_def)

lemma scaled_mono_piece:
  assumes "lv \<le> lv'" and "0 \<le> c"
  shows "min (baseEnemyCount + \<lfloor>sqrt (real lv) * c\<rfloor>) m
       \<le> min (baseEnemyCount + \<lfloor>sqrt (real lv') * c\<rfloor>) m"
proof -
  have "sqrt (real lv) * c \<le> sqrt (real lv') * c"
    using assms by (simp add: mult_right_mono)
  then have "\<lfloor>sqrt (real lv) * c\<rfloor> \<le> \<lfloor>sqrt (real lv') * c\<rfloor>"
    by (rule floor_mono)
  then show ?thesis by simp
qed

lemma scaled_mono: "lv \<le> lv' \<Longrightarrow> scaledEnemyCount lv \<le> scaledEnemyCount lv'"
proof -
  assume le: "lv \<le> lv'"
  consider (a) "lv' \<le> 10" | (b) "lv \<le> 10" "10 < lv'" "lv' < 40" | (c) "lv < 40" "40 \<le> lv'"
    | (d) "10 < lv" "lv' < 40" | (e) "40 \<le> lv"
    using le by linarith
  then show ?thesis
  proof cases
    case a
    then show ?thesis using le scaled_mono_piece [OF le, of "1.25" 15]
      by (simp add: scaledEnemyCount_def)
  next
    case b
    then show ?thesis using scaled_low_le [of lv] scaled_mid_ge [of lv'] by linarith
  next
    case c
    then show ?thesis using scaled_bound [of lv] scaled_high_ge [of lv'] by simp
  next
    case d
    then show ?thesis using le scaled_mono_piece [OF le, of 2 15]
      by (simp add: scaledEnemyCount_def)
  next
    case e
    then show ?thesis using le scaled_mono_piece [OF le, of "2.3" 20]
      by (simp add: scaledEnemyCount_def)
  qed
qed

lemma enemyCountForLevel_mono: "lv \<le> lv' \<Longrightarrow> enemyCountForLevel lv \<le> enemyCountForLevel lv'"
proof -
  assume le: "lv \<le> lv'"
  have one: "scaledEnemyCount 0 = 1"
    by (simp add: scaledEnemyCount_def baseEnemyCount_def)
  show ?thesis
  proof (cases "lv = 1")
    case True
    then show ?thesis using scaled_ge_1 [of lv'] by (simp add: enemyCountForLevel_def)
  next
    case False
    show ?thesis
    proof (cases "lv' = 1")
      case True
      with le False have "lv = 0" by simp
      with True one show ?thesis by (simp add: enemyCountForLevel_def)
    next
      case False
      with \<open>lv \<noteq> 1\<close> le show ?thesis by (simp add: enemyCountForLevel_def scaled_mono)
    qed
  qed
qed

lemma scaledEnemyCount_2: "scaledEnemyCount 2 = 2"
proof -
  have "(1::real) \<le> sqrt 2 * 1.25" using sqrt_ge_of [of "0.8" 2] by simp
  moreover have "sqrt 2 * 1.25 < 2" using sqrt_lt_of [of "1.6" 2] by simp
  ultimately have "\<lfloor>sqrt 2 * 1.25\<rfloor> = 1" by linarith
  then show ?thesis by (simp add: scaledEnemyCount_def baseEnemyCount_def)
qed

lemma scaledEnemyCount_20: "scaledEnemyCount 20 = 9"
proof -
  have "(8::real) \<le> sqrt 20 * 2" using sqrt_ge_of [of 4 20] by simp
  moreover have "sqrt 20 * 2 < 9" using sqrt_lt_of [of "4.5" 20] by simp
  ultimately have "\<lfloor>sqrt 20 * 2\<rfloor> = 8" by linarith
  then show ?thesis by (simp add: scaledEnemyCount_def baseEnemyCount_def)
qed

lemma chooseEnemy_stats:
  "chooseEnemy lv r tc = (ty, hp, spd, tc') \<Longrightarrow>
     (case ty of
        Tank \<Rightarrow> hp = 50 + 9 * real lv \<and> spd = 1.3
      | Turret \<Rightarrow> hp = 75 + 9 * real lv \<and> spd = 1
      | Bomber \<Rightarrow> 15 \<le> lv \<and> hp = 40 + 3 * real lv \<and> spd = 4)"
  by (auto simp: chooseEnemy_def Let_def split: if_splits)

lemma chooseEnemy_turret:
  "chooseEnemy lv r tc = (ty, hp, spd, tc') \<Longrightarrow>
     (ty = Turret \<longrightarrow> tc < maxTurrets \<and> tc' = tc + 1) \<and> (ty \<noteq> Turret \<longrightarrow> tc' = tc)"
  by (auto simp: chooseEnemy_def Let_def split: if_splits)

subsection \<open>The loops of the generator\<close>

lemma positionLoop_induct_simple [case_names step]:
  assumes "\<And>n k. (\<And>k1. n < turretMaxRegenAttempts \<Longrightarrow> P (n + 1) k1) \<Longrightarrow> P n k"
  shows "P n (k::nat)"
proof (induction "turretMaxRegenAttempts - n" arbitrary: n k rule: less_induct)
  case (less n k)
  have "P (n + 1) k1" if "n < turretMaxRegenAttempts" for k1
  proof -
    from that have "turretMaxRegenAttempts - (n + 1) < turretMaxRegenAttempts - n" by linarith
    then show ?thesis by (rule less.hyps)
  qed
  then show ?case by (rule assms)
qed

lemma positionLoop_Some:
  "positionLoop st rnd g ex ty n k = (Some p, k') \<Longrightarrow>
     (isWithinMapBoundaries (fst p) (snd (snd p)) defaultMapSize \<and>
      isClear p (terrainObstacles st) \<and>
      (if (ty = Turret \<or> ty = Tank) \<and> safeZoneActive st
       then distanceTo (fst p, snd (snd p)) (safeZoneCenter st) \<le> safeZoneRadius st
       else True)) \<or>
     ((ty = Turret \<or> ty = Tank) \<and> safeZoneActive st \<and>
      (\<exists>j. p = safeZoneFallback st (rnd j * pi * 2)))"
proof (induction n k rule: positionLoop_induct_simple)
  case (step n k)
  obtain c k1 where g: "generateRandomPosition st rnd k g ex 5 300 = (c, k1)"
    by (cases "generateRandomPosition st rnd k g ex 5 300")
  note w = generateRandomPosition_within [OF g]
  from step.prems g w step.IH [of k1] show ?case
    by (subst (asm) positionLoop.simps) (auto simp: Let_def split: if_splits)
qed

lemma initialLoop_induct_simple [case_names step]:
  assumes "\<And>n k. (\<And>k1. n < maxAttempts \<Longrightarrow> P (n + 1) k1) \<Longrightarrow> P n k"
  shows "P n (k::nat)"
proof (induction "maxAttempts - n" arbitrary: n k rule: less_induct)
  case (less n k)
  have "P (n + 1) k1" if "n < maxAttempts" for k1
  proof -
    from that have "maxAttempts - (n + 1) < maxAttempts - n" by linarith
    then show ?thesis by (rule less.hyps)
  qed
  then show ?case by (rule assms)
qed

lemma initialLoop_Some:
  "initialLoop st rnd g ex n k = (Some p, k') \<Longrightarrow>
     isWithinMapBoundaries (fst p) (snd (snd p)) defaultMapSize \<and>
     isClear p (terrainObstacles st)"
proof (induction n k rule: initialLoop_induct_simple)
  case (step n k)
  obtain c k1 where g: "generateRandomPosition st rnd k g ex 5 300 = (c, k1)"
    by (cases "generateRandomPosition st rnd k g ex 5 300")
  note w = generateRandomPosition_within [OF g]
  from step.prems g w step.IH [of k1] show ?case
    by (subst (asm) initialLoop.simps) (auto simp: Let_def split: if_splits)
qed

lemma initialLoop_level:
  "initialLoop (st\<lparr>level := l\<rparr>) rnd g ex n k = initialLoop st rnd g ex n k"
proof (induction n k rule: initialLoop_induct_simple)
  case (step n k)
  from step.IH show ?case
    by (subst initialLoop.simps [of "st\<lparr>level := l\<rparr>" rnd g ex n k],
        subst initialLoop.simps [of st rnd g ex n k])
      (auto split: prod.splits)
qed

lemma enemyLoop_done:
  "\<not> i < cnt \<Longrightarrow> enemyLoop st rnd lv g cnt i es ex tc k = (es, k)"
  by (subst enemyLoop.simps) simp

lemma enemyLoop_step:
  "i < cnt \<Longrightarrow> chooseEnemy lv (rnd k) tc = (ty, hp, spd, tc') \<Longrightarrow>
   positionLoop st rnd g ex ty 0 (k + 1) = (found, k') \<Longrightarrow>
   enemyLoop st rnd lv g cnt i es ex tc k =
     enemyLoop st rnd lv g cnt (i + 1)
       (es @ [\<lparr>position = (case found of None \<Rightarrow> (0, 0.5, 0) | Some p \<Rightarrow> p), health = hp,
               etype = ty, speed = spd\<rparr>])
       (ex @ [case found of None \<Rightarrow> (0, 0.5, 0) | Some p \<Rightarrow> p]) tc' k'"
  by (subst enemyLoop.simps) (simp add: Let_def)

lemma enemyLoop_induct_simple [case_names step]:
  assumes "\<And>i es ex tc k.
     (\<And>es' ex' tc' k'. i < cnt \<Longrightarrow> P (i + 1) es' ex' tc' k') \<Longrightarrow> P i es ex tc k"
  shows "P (i::int) es ex tc k"
proof (induction "nat (cnt - i)" arbitrary: i es ex tc k rule: less_induct)
  case (less i es ex tc k)
  have "P (i + 1) es' ex' tc' k'" if "i < cnt" for es' ex' tc' k'
  proof -
    from that have "nat (cnt - (i + 1)) < nat (cnt - i)" by linarith
    then show ?thesis by (rule less.hyps)
  qed
  then show ?case by (rule assms)
qed

lemma enemyLoop_all:
  assumes new: "\<And>k tc ex ty hp spd tc' found k'.
      chooseEnemy lv (rnd k) tc = (ty, hp, spd, tc') \<Longrightarrow>
      positionLoop st rnd g ex ty 0 (k + 1) = (found, k') \<Longrightarrow>
      P \<lparr>position = (case found of None \<Rightarrow> (0, 0.5, 0) | Some p \<Rightarrow> p), health = hp,
         etype = ty, speed = spd\<rparr>"
  shows "(\<forall>e\<in>set es. P e) \<Longrightarrow>
     (\<forall>e\<in>set (fst (enemyLoop st rnd lv g cnt i es ex tc k)). P e)"
proof (induction i es ex tc k rule: enemyLoop_induct_simple [where cnt = cnt])
  case (step i es ex tc k)
  show ?case
  proof (cases "i < cnt")
    case False
    with step.prems show ?thesis by (simp add: enemyLoop_done)
  next
    case True
    obtain ty hp spd tc' where c: "chooseEnemy lv (rnd k) tc = (ty, hp, spd, tc')"
      by (cases "chooseEnemy lv (rnd k) tc")
    obtain found k' where p: "positionLoop st rnd g ex ty 0 (k + 1) = (found, k')"
      by (cases "positionLoop st rnd g ex ty 0 (k + 1)")
    from step.prems new [OF c p] show ?thesis
      unfolding enemyLoop_step [OF True c p]
      by (intro step.IH [OF True]) simp
  qed
qed

lemma enemyLoop_length:
  "i \<le> cnt \<Longrightarrow>
     int (length (fst (enemyLoop st rnd lv g cnt i es ex tc k))) = int (length es) + (cnt - i)"
proof (induction i es ex tc k rule: enemyLoop_induct_simple [where cnt = cnt])
  case (step i es ex tc k)
  show ?case
  proof (cases "i < cnt")
    case False
    with step.prems show ?thesis by (simp add: enemyLoop_done)
  next
    case True
    obtain ty hp spd tc' where c: "chooseEnemy lv (rnd k) tc = (ty, hp, spd, tc')"
      by (cases "chooseEnemy lv (rnd k) tc")
    obtain found k' where p: "positionLoop st rnd g ex ty 0 (k + 1) = (found, k')"
      by (cases "positionLoop st rnd g ex ty 0 (k + 1)")
    from True have "i + 1 \<le> cnt" by simp
    from step.IH [OF True this] show ?thesis
      unfolding enemyLoop_step [OF True c p] by simp
  qed
qed

lemma enemyLoop_turrets:
  "tc \<le> maxTurrets \<Longrightarrow>
     length (filter (\<lambda>e. etype e = Turret) (fst (enemyLoop st rnd lv g cnt i es ex tc k))) + tc
       \<le> length (filter (\<lambda>e. etype e = Turret) es) + maxTurrets"
proof (induction i es ex tc k rule: enemyLoop_induct_simple [where cnt = cnt])
  case (step i es ex tc k)
  show ?case
  proof (cases "i < cnt")
    case False
    with step.prems show ?thesis by (simp add: enemyLoop_done)
  next
    case True
    obtain ty hp spd tc' where c: "chooseEnemy lv (rnd k) tc = (ty, hp, spd, tc')"
      by (cases "chooseEnemy lv (rnd k) tc")
    obtain found k' where p: "positionLoop st rnd g ex ty 0 (k + 1) = (found, k')"
      by (cases "positionLoop st rnd g ex ty 0 (k + 1)")
    note t = chooseEnemy_turret [OF c]
    from t step.prems have le: "tc' \<le> maxTurrets" by (cases "ty = Turret") auto
    let ?fp = "case found of None \<Rightarrow> (0, 0.5, 0) | Some p \<Rightarrow> p"
    let ?e = "\<lparr>position = ?fp, health = hp, etype = ty, speed = spd\<rparr>"
    from step.IH [OF True le, of "es @ [?e]" "ex @ [?fp]" k'] t step.prems show ?thesis
      unfolding enemyLoop_step [OF True c p] by (cases "ty = Turret") auto
  qed
qed

lemma generateEnemies_level1:
  "\<exists>p k'. generateEnemies st rnd k 1 pl =
       ([\<lparr>position = p, health = 85, etype = Tank, speed = 1.3\<rparr>], k') \<and>
     isWithinMapBoundaries (fst p) (snd (snd p)) defaultMapSize \<and>
     (p = (20, 0.5, 20) \<or> isClear p (terrainObstacles st))"
proof (cases "initialLoop st rnd (gridSizeForLevel 1) [pl] 0 k")
  case (Pair found k')
  show ?thesis
  proof (cases found)
    case None
    with Pair show ?thesis
      by (simp add: generateEnemies_def isWithinMapBoundaries_def defaultMapSize_def)
  next
    case (Some p)
    with Pair initialLoop_Some [of st rnd "gridSizeForLevel 1" "[pl]" 0 k p k'] show ?thesis
      by (simp add: generateEnemies_def)
  qed
qed

lemma generateEnemies_length:
  "int (length (fst (generateEnemies st rnd k lv pl))) = enemyCountForLevel lv"
proof (cases "lv = 1")
  case True
  then show ?thesis
    by (simp add: generateEnemies_def enemyCountForLevel_def split: prod.splits)
next
  case False
  have "0 \<le> scaledEnemyCount lv" using scaled_ge_1 [of lv] by simp
  from enemyLoop_length [OF this] False show ?thesis
    by (simp add: generateEnemies_def enemyCountForLevel_def)
qed

lemma isClear_single:
  "isClear p [\<lparr>ob_position = (0, 0, 0), ob_type = Rock, ob_size = 5\<rparr>] \<Longrightarrow>
     19.5 \<le> sqrt (fst p * fst p + snd (snd p) * snd (snd p))"
  by (simp add: Let_def split: if_splits)

subsection \<open>Where tanks and turrets are placed while the safe zone is active\<close>

text \<open>
  A tank or turret is within the radius of the zone center, or at a fallback position of
  the zone, or at the emergency position \<open>(0, 0.5, 0)\<close> that the generator uses when its
  loop ends without a position.
\<close>

lemma safe_zone_position_cases:
  assumes "lv \<noteq> 1" and "safeZoneActive st"
  shows "\<forall>e\<in>set (fst (generateEnemies st rnd k lv playerPosition)).
     etype e = Bomber \<or>
     distanceTo (fst (position e), snd (snd (position e))) (safeZoneCenter st)
       \<le> safeZoneRadius st \<or>
     (\<exists>j. position e = safeZoneFallback st (rnd j * pi * 2)) \<or>
     position e = (0, 0.5, 0)"
proof -
  let ?P = "\<lambda>e. etype e = Bomber \<or>
     distanceTo (fst (position e), snd (snd (position e))) (safeZoneCenter st)
       \<le> safeZoneRadius st \<or>
     (\<exists>j. position e = safeZoneFallback st (rnd j * pi * 2)) \<or>
     position e = (0, 0.5, 0)"
  have "\<forall>e\<in>set (fst (enemyLoop st rnd lv (gridSizeForLevel lv) (scaledEnemyCount lv) 0 []
      [playerPosition] 0 k)). ?P e"
  proof (rule enemyLoop_all [where P = ?P])
    fix k tc ex ty hp spd tc' found k'
    assume p: "positionLoop st rnd (gridSizeForLevel lv) ex ty 0 (k + 1) = (found, k')"
    show "?P \<lparr>position = (case found of None \<Rightarrow> (0, 0.5, 0) | Some p \<Rightarrow> p), health = hp,
         etype = ty, speed = spd\<rparr>"
    proof (cases found)
      case None
      then show ?thesis by simp
    next
      case (Some q)
      with p positionLoop_Some [of st rnd "gridSizeForLevel lv" ex ty 0 "k + 1" q k'] assms(2)
      show ?thesis by (cases ty) auto
    qed
  qed simp
  with assms(1) show ?thesis by (simp add: generateEnemies_def)
qed

subsection \<open>Runs on the example stores\<close>

lemmas run_simps = generateEnemies_def gridSizeForLevel_def enemyLoop.simps chooseEnemy_def
  turretProbability_def bomberProbability_def maxTurrets_def positionLoop.simps
  turretMaxRegenAttempts_def generateRandomPosition_def sampleLoop.simps
  isWithinMapBoundaries_def defaultMapSize_def distanceTo_def safeZoneFallback_def Let_def
  sqrt_less_iff_sq sqrt_le_iff_sq scaledEnemyCount_2

lemma run_openField:
  "generateEnemies openField (\<lambda>i. if i < 3 then 0 else 3 / 4) 0 2 (0, 0.5, 0) =
     ([\<lparr>position = (- 22, 0.5, - 22), health = 93, etype = Turret, speed = 1\<rparr>,
       \<lparr>position = (11, 0.5, 11), health = 68, etype = Tank, speed = 1.3\<rparr>], 6)"
  by (simp add: run_simps openField_def)

lemma run_edgeZone:
  "fst (generateEnemies edgeZone (\<lambda>i. 0) 0 2 (0, 0.5, 0)) =
     [\<lparr>position = (52, 0.5, 0), health = 93, etype = Turret, speed = 1\<rparr>,
      \<lparr>position = (52, 0.5, 0), health = 93, etype = Turret, speed = 1\<rparr>]"
  by (simp add: run_simps edgeZone_def)

lemma cornerRock_tier1:
  "sampleLoop (terrainObstacles cornerRock) (\<lambda>i. 0) 50 ex 5 300 0 0 = (None, 600)"
  using sampleLoop_rejects [of "\<lambda>i. 0" 50 "terrainObstacles cornerRock" ex 5 300 0 0]
  by (simp add: cornerRock_def Let_def sqrt_less_iff_sq)

lemma cornerRock_find:
  "find (latticeAccepts (terrainObstacles cornerRock)) (latticePoints 50) = Some (40, 40)"
  by (simp add: cornerRock_def latticePoints_def latticeSteps_def latticePoint_def
      latticeAccepts_def isWithinMapBoundaries_def Let_def sqrt_less_iff_sq)

lemma cornerRock_scan:
  "gridXLoop (terrainObstacles cornerRock) 50 (- searchGrid) = Some (40, 0.5, 40)"
  by (simp add: cornerRock_def gridXLoop.simps gridZLoop.simps searchGrid_def
      isWithinMapBoundaries_def defaultMapSize_def Let_def sqrt_less_iff_sq)

lemma lattice_distinct: "distinct (latticePoints 50)"
  by (simp add: latticePoints_def latticeSteps_def latticePoint_def)

lemma lattice_last: "latticePoints 50 ! 120 = (40, 40)"
  by (simp add: latticePoints_def latticeSteps_def latticePoint_def)

lemma near_rock:
  assumes "\<bar>cx - x\<bar> \<le> 11" and "\<bar>cz - z\<bar> \<le> 11"
  shows "sqrt ((cx - x) * (cx - x) + (cz - z) * (cz - z)) < 3.2 * 2.5 + 12"
proof -
  from square_le [OF assms(1)] square_le [OF assms(2)]
  have "(cx - x) * (cx - x) + (cz - z) * (cz - z) < 20 * 20" by simp
  with sqrt_less_iff_sq [of 20 "(cx - x) * (cx - x) + (cz - z) * (cz - z)"]
  have "sqrt ((cx - x) * (cx - x) + (cz - z) * (cz - z)) < 20" by simp
  then show ?thesis by simp
qed

lemma rocky_blocked:
  assumes "- 22 \<le> x" "x \<le> 22" "- 22 \<le> z" "z \<le> 22"
  shows "\<not> isPositionClear x z (terrainObstacles rockyField) 12"
proof -
  let ?cx = "if 0 \<le> x then 11 else - 11 :: real"
  let ?cz = "if 0 \<le> z then 11 else - 11 :: real"
  have m: "rock ?cx ?cz 3.2 \<in> set (terrainObstacles rockyField)"
    by (simp add: rockyField_def)
  have "\<bar>?cx - x\<bar> \<le> 11" "\<bar>?cz - z\<bar> \<le> 11" using assms by auto
  from near_rock [OF this] have
    "sqrt ((?cx - x) * (?cx - x) + (?cz - z) * (?cz - z)) < 3.2 * 2.5 + 12" .
  with isPositionClear_blocked [OF m, of x z 12] show ?thesis
    by (simp add: rock_def)
qed

lemma rocky_tier1:
  assumes "\<forall>i. 0 \<le> rnd i \<and> rnd i < 1"
  shows "sampleLoop (terrainObstacles rockyField) rnd 44 ex 5 300 0 k = (None, k + 600)"
proof -
  have "\<not> isPositionClear ((rnd j - 0.5) * 44) ((rnd (j + 1) - 0.5) * 44)
      (terrainObstacles rockyField) 12" for j
    using assms [rule_format, of j] assms [rule_format, of "j + 1"]
    by (intro rocky_blocked) simp_all
  from sampleLoop_rejects [of rnd 44 "terrainObstacles rockyField" ex 5 300 0 k, OF this]
  show ?thesis by simp
qed

lemma rocky_tier2:
  "gridXLoop (terrainObstacles rockyField) 44 (- searchGrid) = Some (- 35.2, 0.5, - 35.2)"
  by (simp add: rockyField_def rock_def gridXLoop.simps gridZLoop.simps searchGrid_def
      isWithinMapBoundaries_def defaultMapSize_def Let_def sqrt_less_iff_sq)

lemma rocky_candidate:
  assumes "\<forall>i. 0 \<le> rnd i \<and> rnd i < 1"
  shows "generateRandomPosition rockyField rnd k 44 ex 5 300 = ((- 35.2, 0.5, - 35.2), k + 600)"
  by (simp add: generateRandomPosition_def rocky_tier1 [OF assms] rocky_tier2)

lemma rocky_rejected: "\<not> isClear (- 35.2, 0.5, - 35.2) (terrainObstacles rockyField)"
  by (simp add: rockyField_def rock_def Let_def sqrt_less_iff_sq)

lemma rocky_positionLoop:
  assumes "\<forall>i. 0 \<le> rnd i \<and> rnd i < 1"
  shows "fst (positionLoop rockyField rnd 44 ex ty n k) = None"
proof (induction n k rule: positionLoop_induct_simple)
  case (step n k)
  from step.IH [of "k + 600"] rocky_rejected show ?case
    by (subst positionLoop.simps) (simp add: rocky_candidate [OF assms])
qed

lemma rocky_fallback_far: "15 \<le> fst (safeZoneFallback rockyField angle)"
proof -
  have "- 1 \<le> cos angle" by simp
  then have "15 \<le> 20 + cos angle * 5" by linarith
  then show ?thesis by (simp add: safeZoneFallback_def rockyField_def Let_def)
qed

lemma rocky_center_far:
  "\<not> distanceTo (0, 0) (safeZoneCenter rockyField) \<le> safeZoneRadius rockyField"
  by (simp add: distanceTo_def rockyField_def Let_def sqrt_le_iff_sq)

subsection \<open>Budgets that suffice, and the ring loop on doubles\<close>

text \<open>
  With the exact subtraction, a budget of \<open>ceiling attempts\<close> samples, \<open>floor (radius / 5)\<close>
  rings and 16 angles gives each loop's own result.
\<close>

lemma sampleLoopFuel_enough:
  "nat \<lceil>att\<rceil> - n \<le> fuel \<Longrightarrow>
     sampleLoopFuel fuel obs rnd g ex md att n k = Some (sampleLoop obs rnd g ex md att n k)"
proof (induction fuel arbitrary: n k)
  case 0
  then have "\<not> real n < att" by (simp add: less_ceiling_iff)
  then show ?case by (subst sampleLoop.simps) simp
next
  case (Suc fuel)
  have "nat \<lceil>att\<rceil> - (n + 1) \<le> fuel" using Suc.prems by linarith
  from Suc.IH [OF this] show ?case
    by (subst sampleLoop.simps) (simp add: Let_def)
qed

lemma angleLoopFuel_enough:
  "nat \<lceil>(pi * 2 - a) / (pi / 8)\<rceil> \<le> fuel \<Longrightarrow>
     angleLoopFuel fuel obs r a = Some (angleLoop obs r a)"
proof (induction fuel arbitrary: a)
  case 0
  then have "\<lceil>(pi * 2 - a) / (pi / 8)\<rceil> \<le> 0" by simp
  then have "(pi * 2 - a) / (pi / 8) \<le> 0" by (simp add: ceiling_le_iff)
  then have "\<not> a < pi * 2" by (simp add: field_simps)
  then show ?case by (subst angleLoop.simps) simp
next
  case (Suc fuel)
  show ?case
  proof (cases "a < pi * 2")
    case False
    then show ?thesis by (subst angleLoop.simps) simp
  next
    case True
    have step: "(pi * 2 - (a + pi / 8)) / (pi / 8) = (pi * 2 - a) / (pi / 8) - 1"
      by (simp add: field_simps)
    have "nat \<lceil>(pi * 2 - (a + pi / 8)) / (pi / 8)\<rceil> \<le> fuel"
      using Suc.prems unfolding step by simp linarith
    from Suc.IH [OF this] True show ?thesis
      by (subst angleLoop.simps) (simp add: Let_def)
  qed
qed

lemma angleLoopFuel_16:
  "16 \<le> angles \<Longrightarrow> angleLoopFuel angles obs r 0 = Some (angleLoop obs r 0)"
  by (rule angleLoopFuel_enough) simp

lemma radiusLoopFuel_enough:
  "16 \<le> angles \<Longrightarrow> nat \<lfloor>radius / 5\<rfloor> \<le> rings \<Longrightarrow>
     radiusLoopFuel (-) rings angles obs radius = Some (radiusLoop obs radius)"
proof (induction rings arbitrary: radius)
  case 0
  then have "\<lfloor>radius / 5\<rfloor> \<le> 0" by simp
  then have "radius / 5 < 1" by (simp add: floor_le_iff)
  then have "\<not> 5 \<le> radius" by simp
  then show ?case by (subst radiusLoop.simps) simp
next
  case (Suc rings)
  show ?case
  proof (cases "5 \<le> radius")
    case False
    then show ?thesis by (subst radiusLoop.simps) simp
  next
    case True
    have "\<lfloor>(radius - 5) / 5\<rfloor> = \<lfloor>radius / 5\<rfloor> - 1"
      by (simp add: diff_divide_distrib)
    then have "nat \<lfloor>(radius - 5) / 5\<rfloor> \<le> rings" using Suc.prems(2) by linarith
    from Suc.IH [OF Suc.prems(1) this] True angleLoopFuel_16 [OF Suc.prems(1), of obs radius]
    show ?thesis
      by (subst radiusLoop.simps) (simp split: option.splits)
  qed
qed

lemma generateRandomPositionFuel_enough:
  "generateRandomPositionFuel (-) (nat \<lceil>att\<rceil>) (nat \<lfloor>g / 10\<rfloor>) 16 st rnd k g ex md att =
     Some (generateRandomPosition st rnd k g ex md att)"
proof -
  have "radiusLoopFuel (-) (nat \<lfloor>g / 10\<rfloor>) 16 (terrainObstacles st) (g / 2) =
      Some (radiusLoop (terrainObstacles st) (g / 2))"
    by (rule radiusLoopFuel_enough) simp_all
  then show ?thesis
    by (simp add: generateRandomPositionFuel_def generateRandomPosition_def Let_def
        sampleLoopFuel_enough split: prod.splits option.splits)
qed

lemma cornerRock_search:
  "generateRandomPosition cornerRock (\<lambda>i. 0) 0 50 [(0, 0.5, 0)] 5 300 = ((40, 0.5, 40), 600)"
  using cornerRock_tier1 [of "[(0, 0.5, 0)]"] cornerRock_scan
  by (simp add: generateRandomPosition_def)

text \<open>
  \<open>doubleSub\<close> is exact on small radii and returns its first argument at
  \<open>hugeGridSize / 2\<close>. A ring of radius 68 or more has no point inside the map.
\<close>

lemma log2_30: "\<lfloor>log 2 30\<rfloor> = 4"
  using floor_log_eq_powr_iff [of 30 2 4] by simp

lemma doubleSub_exact: "doubleSub 35 5 = 30"
  by (simp add: doubleSub_def roundToDouble_def roundEven_def Let_def log2_30 powr_minus)

lemma log2_big: "\<lfloor>log 2 499999999999999995\<rfloor> = 58"
proof -
  have "(2::real) powr 58 \<le> 499999999999999995" by simp
  moreover have "(499999999999999995::real) < 2 powr 59" by simp
  ultimately show ?thesis
    using floor_log_eq_powr_iff [of 499999999999999995 2 58] by simp
qed

lemma doubleSub_stuck: "doubleSub (hugeGridSize / 2) 5 = hugeGridSize / 2"
  by (simp add: hugeGridSize_def doubleSub_def roundToDouble_def roundEven_def Let_def log2_big)

lemma hugeGridSize_ring: "68 \<le> hugeGridSize / 2"
  by (simp add: hugeGridSize_def)

lemma ring_outside:
  assumes "68 \<le> r"
  shows "\<not> isWithinMapBoundaries (cos a * r) (sin a * r) defaultMapSize"
proof
  assume "isWithinMapBoundaries (cos a * r) (sin a * r) defaultMapSize"
  then have "\<bar>cos a * r\<bar> \<le> 48" and "\<bar>sin a * r\<bar> \<le> 48"
    by (auto simp: isWithinMapBoundaries_def defaultMapSize_def)
  from square_le [OF this(1)] square_le [OF this(2)]
  have "(cos a * r) * (cos a * r) + (sin a * r) * (sin a * r) \<le> 4608" by simp
  moreover have "(cos a * r) * (cos a * r) + (sin a * r) * (sin a * r) = r * r"
    using sin_cos_squared_add3 [of a] by algebra
  moreover have "68 * 68 \<le> r * r" using assms by (intro mult_mono) simp_all
  ultimately show False by simp
qed

lemma angleLoop_outside: "68 \<le> r \<Longrightarrow> angleLoop obs r a = None"
proof (induction a rule: angleLoop_induct_simple)
  case (step a)
  from step.IH step.prems ring_outside [OF step.prems, of a] show ?case
    by (subst angleLoop.simps) (simp add: Let_def)
qed

lemma radiusLoopFuel_stuck:
  "radiusLoopFuel doubleSub rings (16 + angles) obs (hugeGridSize / 2) = None"
proof (induction rings)
  case 0
  from hugeGridSize_ring show ?case by simp
next
  case (Suc rings)
  have "angleLoopFuel (16 + angles) obs (hugeGridSize / 2) 0 = Some None"
    using angleLoopFuel_16 [of "16 + angles" obs "hugeGridSize / 2"]
      angleLoop_outside [OF hugeGridSize_ring, of obs 0] by simp
  with Suc.IH hugeGridSize_ring show ?case by (simp add: doubleSub_stuck)
qed

lemma sampleLoop_outside:
  assumes "\<And>j. \<not> isWithinMapBoundaries ((rnd j - 0.5) * g) ((rnd (j + 1) - 0.5) * g)
      defaultMapSize"
  shows "sampleLoop obs rnd g ex md att n k = (None, k + 2 * (nat \<lceil>att\<rceil> - n))"
proof (induction n k rule: sampleLoop_induct_simple [where att = att])
  case (step n k)
  show ?case
  proof (cases "real n < att")
    case False
    then have "nat \<lceil>att\<rceil> - n = 0" by (simp add: less_ceiling_iff)
    with False show ?thesis by (subst sampleLoop.simps) simp
  next
    case True
    then have "int n < \<lceil>att\<rceil>" by (simp add: less_ceiling_iff)
    then have *: "k + 2 + 2 * (nat \<lceil>att\<rceil> - (n + 1)) = k + 2 * (nat \<lceil>att\<rceil> - n)" by linarith
    from True step.IH [OF True] assms [of k] * show ?thesis
      by (subst sampleLoop.simps) (simp add: Let_def)
  qed
qed

lemma originRock_tier1:
  "sampleLoop (terrainObstacles originRock) (\<lambda>i. 0) hugeGridSize [] 5 300 0 0 = (None, 600)"
  using sampleLoop_outside [of "\<lambda>i. 0" hugeGridSize "terrainObstacles originRock" "[]" 5 300 0 0]
  by (simp add: hugeGridSize_def isWithinMapBoundaries_def defaultMapSize_def)

lemma originRock_tier2:
  "gridXLoop (terrainObstacles originRock) hugeGridSize (- searchGrid) = None"
  by (simp add: hugeGridSize_def originRock_def rock_def gridXLoop.simps gridZLoop.simps searchGrid_def
      isWithinMapBoundaries_def defaultMapSize_def Let_def sqrt_less_iff_sq)

section \<open>The claims\<close>

text \<open>
  C1 asks that, at a level from 2 on with the safe zone active, every tank and turret
  returned is within \<open>safeZoneRadius\<close> of \<open>safeZoneCenter\<close>, or else at a fallback position of
  the zone (offset from the center, or the center). The code does not keep this when the
  last of the 15 attempts fails the extra clearance check: the loop then ends with
  \<open>finalPosition\<close> still \<open>null\<close>, the fallback near the center is never computed, and the
  enemy is put at the emergency position \<open>(0, 0.5, 0)\<close>. In the store \<open>rockyField\<close> this
  happens for every sequence of draws in \<open>[0, 1)\<close>: both enemies of level 2 are tanks or
  turrets at \<open>(0, 0.5, 0)\<close>, which is farther than the radius 10 from the center
  \<open>(20, 20)\<close> and is no fallback position of the zone.
\<close>

theorem safe_zone_emergency_position:
  assumes "\<forall>i. 0 \<le> rnd i \<and> rnd i < 1"
  shows "length (fst (generateEnemies rockyField rnd k 2 (0, 0.5, 0))) = 2 \<and>
     (\<forall>e\<in>set (fst (generateEnemies rockyField rnd k 2 (0, 0.5, 0))).
        (etype e = Tank \<or> etype e = Turret) \<and> position e = (0, 0.5, 0) \<and>
        \<not> distanceTo (fst (position e), snd (snd (position e))) (safeZoneCenter rockyField)
            \<le> safeZoneRadius rockyField \<and>
        (\<forall>angle. position e \<noteq> safeZoneFallback rockyField angle) \<and>
        position e \<noteq> (fst (safeZoneCenter rockyField), 0.5, snd (safeZoneCenter rockyField)))"
proof -
  let ?run = "fst (generateEnemies rockyField rnd k 2 (0, 0.5, 0))"
  let ?P = "\<lambda>e. (etype e = Tank \<or> etype e = Turret) \<and> position e = (0, 0.5, 0)"
  have g: "gridSizeForLevel 2 = 44" by (simp add: gridSizeForLevel_def)
  have "int (length ?run) = 2"
    by (simp add: generateEnemies_length enemyCountForLevel_def scaledEnemyCount_2)
  then have len: "length ?run = 2" by simp
  have "\<forall>e\<in>set (fst (enemyLoop rockyField rnd 2 44 (scaledEnemyCount 2) 0 []
      [(0, 0.5, 0)] 0 k)). ?P e"
  proof (rule enemyLoop_all [where P = ?P])
    fix k tc ex ty hp spd tc' found k'
    assume c: "chooseEnemy 2 (rnd k) tc = (ty, hp, spd, tc')"
      and p: "positionLoop rockyField rnd 44 ex ty 0 (k + 1) = (found, k')"
    from chooseEnemy_stats [OF c] have "ty = Tank \<or> ty = Turret" by (cases ty) simp_all
    moreover from p rocky_positionLoop [OF assms, of ex ty 0 "k + 1"] have "found = None" by simp
    ultimately show "?P \<lparr>position = (case found of None \<Rightarrow> (0, 0.5, 0) | Some p \<Rightarrow> p),
        health = hp, etype = ty, speed = spd\<rparr>"
      by simp
  qed simp
  then have all: "\<forall>e\<in>set ?run. ?P e" by (simp add: generateEnemies_def g)
  have far: "(0, 0.5, 0) \<noteq> safeZoneFallback rockyField angle" for angle
    using rocky_fallback_far [of angle] by (cases "safeZoneFallback rockyField angle") auto
  have center: "(0, 0.5, 0) \<noteq>
      (fst (safeZoneCenter rockyField), 0.5 :: real, snd (safeZoneCenter rockyField))"
    by (simp add: rockyField_def)
  from len all far center rocky_center_far show ?thesis by simp
qed

text \<open>
  The run with every draw equal to 0.
\<close>

theorem safe_zone_emergency_position_witness:
  "length (fst (generateEnemies rockyField (\<lambda>i. 0) 0 2 (0, 0.5, 0))) = 2 \<and>
   list_all (\<lambda>e. position e = (0, 0.5, 0) \<and> etype e \<noteq> Bomber)
     (fst (generateEnemies rockyField (\<lambda>i. 0) 0 2 (0, 0.5, 0)))"
  using safe_zone_emergency_position [of "\<lambda>i. 0" 0] by (auto simp: list_all_iff)

text \<open>
  C2, as amended. For every level from 2 on and every sequence of draws, each returned
  enemy carries the statistics of its type: a tank has health \<open>50 + 9 * level\<close> and speed
  1.3; a turret has health \<open>75 + 9 * level\<close> and speed 1, the value \<open>speed\<close> is declared
  with, since the turret branch assigns none; a bomber occurs only from level 15 on and has
  health \<open>40 + 3 * level\<close> and speed 4.
\<close>

theorem enemy_stats_by_type:
  "2 \<le> lv \<Longrightarrow>
     \<forall>e\<in>set (fst (generateEnemies st rnd k lv playerPosition)).
       (case etype e of
          Tank \<Rightarrow> health e = 50 + 9 * real lv \<and> speed e = 1.3
        | Turret \<Rightarrow> health e = 75 + 9 * real lv \<and> speed e = 1
        | Bomber \<Rightarrow> 15 \<le> lv \<and> health e = 40 + 3 * real lv \<and> speed e = 4)"
proof -
  assume "2 \<le> lv"
  then have ne: "lv \<noteq> 1" by simp
  let ?P = "\<lambda>e. case etype e of
          Tank \<Rightarrow> health e = 50 + 9 * real lv \<and> speed e = 1.3
        | Turret \<Rightarrow> health e = 75 + 9 * real lv \<and> speed e = 1
        | Bomber \<Rightarrow> 15 \<le> lv \<and> health e = 40 + 3 * real lv \<and> speed e = 4"
  have "\<forall>e\<in>set (fst (enemyLoop st rnd lv (gridSizeForLevel lv) (scaledEnemyCount lv) 0 []
      [playerPosition] 0 k)). ?P e"
  proof (rule enemyLoop_all [where P = ?P])
    fix k tc ex ty hp spd tc' found k'
    assume "chooseEnemy lv (rnd k) tc = (ty, hp, spd, tc')"
    from chooseEnemy_stats [OF this]
    show "?P \<lparr>position = (case found of None \<Rightarrow> (0, 0.5, 0) | Some p \<Rightarrow> p), health = hp,
         etype = ty, speed = spd\<rparr>"
      by (cases ty) simp_all
  qed simp
  with ne show ?thesis by (simp add: generateEnemies_def)
qed

text \<open>
  At level 2 in the open field, with the draws \<open>0, 0, 0, 3/4, 3/4, 3/4\<close>, the first enemy is
  a turret: its health is 93 and its speed 1.
\<close>

theorem enemy_stats_by_type_witness:
  "health (hd (fst (generateEnemies openField (\<lambda>i. if i < 3 then 0 else 3 / 4) 0 2 (0, 0.5, 0))))
     = 93 \<and>
   speed (hd (fst (generateEnemies openField (\<lambda>i. if i < 3 then 0 else 3 / 4) 0 2 (0, 0.5, 0))))
     = 1"
  using enemy_stats_by_type [of 2 openField "\<lambda>i. if i < 3 then 0 else 3 / 4" 0 "(0, 0.5, 0)"]
  unfolding run_openField by simp

text \<open>
  C2 as stated (a turret has speed 0) fails on that run.
\<close>

theorem turret_speed_counterexample:
  "\<not> (\<forall>e\<in>set (fst (generateEnemies openField (\<lambda>i. if i < 3 then 0 else 3 / 4) 0 2 (0, 0.5, 0))).
        etype e = Turret \<longrightarrow> health e = 75 + 9 * 2 \<and> speed e = 0)"
  unfolding run_openField by simp

text \<open>
  C3, as amended. When the sampling tier has used up its attempts, the second tier scans
  the lattice of \<open>11 * 11 = 121\<close> points \<open>((gridX / 10) * (0.8 * gridSize),
  (gridZ / 10) * (0.8 * gridSize))\<close> for \<open>gridX\<close> and \<open>gridZ\<close> in \<open>-10, -8, ..., 10\<close>, row
  by row (\<open>gridX\<close> outside, \<open>gridZ\<close> inside), and returns the first point that is inside the
  map boundaries and clear of every obstacle with clearance 4. The existing positions and
  the minimum distance from them play no part at this tier.
\<close>

theorem grid_search_scans_lattice:
  "sampleLoop (terrainObstacles st) rnd gridSize existingPositions minDistanceFromExisting
       attempts 0 k = (None, k') \<Longrightarrow>
     length (latticePoints gridSize) = 11 * 11 \<and>
     (\<forall>x z. find (latticeAccepts (terrainObstacles st)) (latticePoints gridSize) = Some (x, z) \<longrightarrow>
        generateRandomPosition st rnd k gridSize existingPositions minDistanceFromExisting
          attempts = ((x, 0.5, z), k'))"
  by (simp add: generateRandomPosition_def gridXLoop_lattice length_latticePoints)

text \<open>
  With the rock of \<open>cornerRock\<close> the sampling tier fails on every attempt and only the last
  point of the lattice is far enough from the rock.
\<close>

theorem grid_search_scans_lattice_witness:
  "generateRandomPosition cornerRock (\<lambda>i. 0) 0 50 [(0, 0.5, 0)] 5 300 = ((40, 0.5, 40), 600)"
  using grid_search_scans_lattice [OF cornerRock_tier1, of "[(0, 0.5, 0)]"] cornerRock_find
  by simp

text \<open>
  C3 as stated (a lattice of \<open>10 * 10\<close> points) fails: the points scanned at grid size 50
  are 121 distinct points, and with the rock of \<open>cornerRock\<close> the loops return the last of
  them, \<open>(40, 0.5, 40)\<close>, after rejecting the 120 before it.
\<close>

theorem lattice_size_counterexample:
  "\<not> (length (latticePoints 50) = 10 * 10) \<and> distinct (latticePoints 50) \<and>
   latticePoints 50 ! 120 = (40, 40) \<and>
   gridXLoop (terrainObstacles cornerRock) 50 (- searchGrid) = Some (40, 0.5, 40)"
  using lattice_distinct lattice_last cornerRock_scan by (simp add: length_latticePoints)

text \<open>
  C4, as amended. For every generation pass and every sequence of draws, every returned
  position lies within \<open>[-48, 48]\<close> on both axes, except the positions of the safe-zone
  fallback (the offset from the zone center, or the zone center itself), which are given to
  tanks and turrets while the safe zone is active and are checked against the obstacles
  only, not against the map boundaries.
\<close>

theorem positions_within_map:
  "\<forall>e\<in>set (fst (generateEnemies st rnd k lv playerPosition)).
     isWithinMapBoundaries (fst (position e)) (snd (snd (position e))) 100 \<or>
     (safeZoneActive st \<and> (etype e = Tank \<or> etype e = Turret) \<and>
      (\<exists>j. position e = safeZoneFallback st (rnd j * pi * 2)))"
proof (cases "lv = 1")
  case True
  with generateEnemies_level1 [of st rnd k playerPosition] show ?thesis
    by (auto simp: defaultMapSize_def)
next
  case False
  let ?P = "\<lambda>e. isWithinMapBoundaries (fst (position e)) (snd (snd (position e))) 100 \<or>
     (safeZoneActive st \<and> (etype e = Tank \<or> etype e = Turret) \<and>
      (\<exists>j. position e = safeZoneFallback st (rnd j * pi * 2)))"
  have "\<forall>e\<in>set (fst (enemyLoop st rnd lv (gridSizeForLevel lv) (scaledEnemyCount lv) 0 []
      [playerPosition] 0 k)). ?P e"
  proof (rule enemyLoop_all [where P = ?P])
    fix k tc ex ty hp spd tc' found k'
    assume p: "positionLoop st rnd (gridSizeForLevel lv) ex ty 0 (k + 1) = (found, k')"
    show "?P \<lparr>position = (case found of None \<Rightarrow> (0, 0.5, 0) | Some p \<Rightarrow> p), health = hp,
         etype = ty, speed = spd\<rparr>"
    proof (cases found)
      case None
      then show ?thesis by (simp add: isWithinMapBoundaries_def)
    next
      case (Some q)
      with p positionLoop_Some [of st rnd "gridSizeForLevel lv" ex ty 0 "k + 1" q k']
      show ?thesis by (auto simp: defaultMapSize_def)
    qed
  qed simp
  with False show ?thesis by (simp add: generateEnemies_def)
qed

text \<open>
  With the safe zone of \<open>edgeZone\<close> and every draw equal to 0, both enemies of level 2 are
  placed at the fallback position of the zone for the angle 0.
\<close>

theorem positions_within_map_witness:
  "list_all (\<lambda>e. position e = safeZoneFallback edgeZone 0)
     (fst (generateEnemies edgeZone (\<lambda>i. 0) 0 2 (0, 0.5, 0)))"
  using positions_within_map [of edgeZone "\<lambda>i. 0" 0 2 "(0, 0.5, 0)"]
  unfolding run_edgeZone by (simp add: isWithinMapBoundaries_def)

text \<open>
  C4 as stated (inside the map boundaries, or the last resort \<open>(0, 0.5, 0)\<close> of the
  position search) fails on that run: the fallback position is \<open>(52, 0.5, 0)\<close>.
\<close>

theorem out_of_map_counterexample:
  "\<not> (\<forall>e\<in>set (fst (generateEnemies edgeZone (\<lambda>i. 0) 0 2 (0, 0.5, 0))).
        isWithinMapBoundaries (fst (position e)) (snd (snd (position e))) 100 \<or>
        position e = (0, 0.5, 0))"
  unfolding run_edgeZone by (simp add: isWithinMapBoundaries_def)

text \<open>
  C5, as amended. For every input whose \<open>attempts\<close> and \<open>gridSize\<close> are at most \<open>2 ^ 53\<close>
  (the range in which the loop counter and \<open>radius - 5\<close> are exact in doubles), every
  obstacle list and every sequence of draws, the position search ends within a bounded
  amount of work and returns a triple: \<open>ceiling attempts\<close> iterations of the sampling loop,
  the 121 lattice points, \<open>floor (gridSize / 10)\<close> rings of 16 angles each and the 5 fixed
  positions suffice. The triple has \<open>y = 0.5\<close>, is inside the map boundaries, and is found
  after at most \<open>2 * ceiling attempts\<close> draws.
\<close>

theorem position_search_bounded:
  assumes "attempts \<le> 2 ^ 53" and "gridSize \<le> 2 ^ 53"
  shows "\<exists>p k'.
     generateRandomPositionFuel (-) (nat \<lceil>attempts\<rceil>) (nat \<lfloor>gridSize / 10\<rfloor>) 16 st rnd k
       gridSize existingPositions minDistanceFromExisting attempts = Some (p, k') \<and>
     generateRandomPosition st rnd k gridSize existingPositions minDistanceFromExisting attempts
       = (p, k') \<and>
     k \<le> k' \<and> k' \<le> k + 2 * nat \<lceil>attempts\<rceil> \<and>
     fst (snd p) = 0.5 \<and> isWithinMapBoundaries (fst p) (snd (snd p)) 100 \<and>
     length (latticePoints gridSize) = 121 \<and> length safePositions = 5"
proof (cases "generateRandomPosition st rnd k gridSize existingPositions minDistanceFromExisting
        attempts")
  case (Pair p k')
  from generateRandomPosition_within [OF Pair]
    generateRandomPosition_draws [of k st rnd gridSize existingPositions minDistanceFromExisting
      attempts]
    generateRandomPositionFuel_enough [of attempts gridSize st rnd k existingPositions
      minDistanceFromExisting] Pair
  show ?thesis
    by (simp add: defaultMapSize_def length_latticePoints safePositions_def)
qed

text \<open>
  At grid size 50 with the rock of \<open>cornerRock\<close>: 300 samples, 5 rings and 16 angles suffice.
\<close>

theorem position_search_bounded_witness:
  "generateRandomPositionFuel (-) 300 5 16 cornerRock (\<lambda>i. 0) 0 50 [(0, 0.5, 0)] 5 300 =
     Some ((40, 0.5, 40), 600)"
proof -
  have "(300::real) \<le> 2 ^ 53" and "(50::real) \<le> 2 ^ 53" by simp_all
  from position_search_bounded [OF this, of cornerRock "\<lambda>i. 0" 0 "[(0, 0.5, 0)]" 5]
  obtain p k' where
    fuel: "generateRandomPositionFuel (-) (nat \<lceil>300::real\<rceil>) (nat \<lfloor>50 / 10 :: real\<rfloor>) 16
        cornerRock (\<lambda>i. 0) 0 50 [(0, 0.5, 0)] 5 300 = Some (p, k')"
    and run: "generateRandomPosition cornerRock (\<lambda>i. 0) 0 50 [(0, 0.5, 0)] 5 300 = (p, k')"
    by blast
  from run have "(p, k') = ((40, 0.5, 40), 600)" unfolding cornerRock_search by simp
  with fuel show ?thesis by simp
qed

text \<open>
  C5 as stated (for every grid size) fails: with the grid size \<open>10 ^ 18\<close>, the rock of size
  0 at the origin and every draw equal to 0, no sample and no lattice point passes, no ring
  point is inside the map, and in doubles \<open>radius - 5\<close> is \<open>radius\<close> again. The budgets of
  the sampling loop (300) and of the angle loop (16) suffice; whatever the budget of rings,
  the search does not return.
\<close>

theorem position_search_double_counterexample:
  "sampleLoopFuel 300 (terrainObstacles originRock) (\<lambda>i. 0) hugeGridSize [] 5 300 0 0 =
     Some (None, 600) \<and>
   gridXLoop (terrainObstacles originRock) hugeGridSize (- searchGrid) = None \<and>
   (\<forall>angles. angleLoopFuel (16 + angles) (terrainObstacles originRock) (hugeGridSize / 2) 0 =
      Some None) \<and>
   doubleSub (hugeGridSize / 2) 5 = hugeGridSize / 2 \<and>
   (\<forall>rings angles.
      generateRandomPositionFuel doubleSub 300 rings (16 + angles) originRock (\<lambda>i. 0) 0
        hugeGridSize [] 5 300 = None)"
proof -
  have tier1: "sampleLoopFuel 300 (terrainObstacles originRock) (\<lambda>i. 0) hugeGridSize [] 5 300
      0 0 = Some (None, 600)"
    using sampleLoopFuel_enough [of 300 0 300 "terrainObstacles originRock" "\<lambda>i. 0"
        hugeGridSize "[]" 5 0]
    by (simp add: originRock_tier1)
  have tier3: "angleLoopFuel (16 + angles) (terrainObstacles originRock) (hugeGridSize / 2) 0 =
      Some None" for angles
    using angleLoopFuel_16 [of "16 + angles" "terrainObstacles originRock" "hugeGridSize / 2"]
      angleLoop_outside [OF hugeGridSize_ring, of "terrainObstacles originRock" 0]
    by simp
  from tier1 tier3 show ?thesis
    by (simp add: generateRandomPositionFuel_def Let_def originRock_tier2 radiusLoopFuel_stuck
        doubleSub_stuck)
qed

text \<open>
  C6. For every level from 2 on, the generator returns exactly
  \<open>min (1 + floor (sqrt level * k)) cap\<close> enemies, with \<open>k = 1.25\<close> up to level 10, \<open>2\<close> below
  level 40 and \<open>2.3\<close> from level 40 on, and \<open>cap = 15\<close> below level 40 and \<open>20\<close> from it
  on; at level 20 it returns exactly 9. This holds for every store, every sequence of draws
  and every player position.
\<close>

theorem generateEnemies_count:
  "2 \<le> lv \<Longrightarrow>
     int (length (fst (generateEnemies st rnd k lv playerPosition))) =
       min (1 + \<lfloor>sqrt (real lv) * (if lv \<le> 10 then 1.25 else if lv < 40 then 2 else 2.3)\<rfloor>)
         (if lv < 40 then 15 else 20) \<and>
     length (fst (generateEnemies st rnd k 20 playerPosition)) = 9"
proof -
  assume "2 \<le> lv"
  then have "lv \<noteq> 1" by simp
  then have "int (length (fst (generateEnemies st rnd k lv playerPosition))) = scaledEnemyCount lv"
    by (simp add: generateEnemies_length enemyCountForLevel_def)
  moreover have "int (length (fst (generateEnemies st rnd k 20 playerPosition))) = 9"
    by (simp add: generateEnemies_length enemyCountForLevel_def scaledEnemyCount_20)
  ultimately show ?thesis
    by (simp add: scaledEnemyCount_def baseEnemyCount_def)
qed

theorem generateEnemies_count_witness:
  "length (fst (generateEnemies openField (\<lambda>i. 0) 0 20 (0, 0.5, 0))) = 9"
  using generateEnemies_count [of 20 openField "\<lambda>i. 0" 0 "(0, 0.5, 0)"] by simp

text \<open>
  C7. The number of enemies the generator returns at a level is \<open>enemyCountForLevel\<close>
  (1 at level 1, the capped square-root formula elsewhere). It does not decrease when the
  level grows, across the boundaries 10/11 and 39/40 as well, and it is at most 15 below
  level 40 and at most 20 from level 40 on.
\<close>

theorem enemyCount_monotone_bounded:
  "lv \<le> lv' \<Longrightarrow>
     int (length (fst (generateEnemies st rnd k lv playerPosition))) = enemyCountForLevel lv \<and>
     enemyCountForLevel lv \<le> enemyCountForLevel lv' \<and>
     enemyCountForLevel lv \<le> (if lv < 40 then 15 else 20)"
proof -
  assume le: "lv \<le> lv'"
  have "enemyCountForLevel lv \<le> (if lv < 40 then 15 else 20)"
    using scaled_bound [of lv] by (auto simp: enemyCountForLevel_def split: if_splits)
  with le show ?thesis
    by (simp only: generateEnemies_length enemyCountForLevel_mono simp_thms)
qed

theorem enemyCount_monotone_bounded_witness:
  "enemyCountForLevel 10 \<le> enemyCountForLevel 11 \<and> enemyCountForLevel 39 \<le> enemyCountForLevel 40 \<and>
   enemyCountForLevel 39 \<le> 15"
  using enemyCount_monotone_bounded [of 10 11 openField "\<lambda>i. 0" 0 "(0, 0.5, 0)"]
    enemyCount_monotone_bounded [of 39 40 openField "\<lambda>i. 0" 0 "(0, 0.5, 0)"]
  by simp

text \<open>
  C8. In one generation pass, at any level and for any draws, at most 3 of the returned
  enemies are turrets.
\<close>

theorem turret_cap:
  "length (filter (\<lambda>e. etype e = Turret) (fst (generateEnemies st rnd k lv playerPosition))) \<le> 3"
proof (cases "lv = 1")
  case True
  then show ?thesis by (simp add: generateEnemies_def split: prod.splits)
next
  case False
  have "0 \<le> maxTurrets" by simp
  from enemyLoop_turrets [OF this, of st rnd lv "gridSizeForLevel lv" "scaledEnemyCount lv" 0 "[]"
      "[playerPosition]" k] False
  show ?thesis by (simp add: generateEnemies_def maxTurrets_def)
qed

text \<open>
  C9. At level 1, with the single obstacle of size 5 at \<open>(0, 0, 0)\<close> and the player at
  \<open>(0, 0.5, 0)\<close>, the generator returns exactly one enemy: a tank of health 85 and speed 1.3,
  at a distance of at least \<open>5 * 2.5 + 7 = 19.5\<close> from the origin and within the map
  boundaries. This holds for every sequence of draws and whatever the other fields of the
  store are, also when the 30 attempts are used up and the fixed position \<open>(20, 0.5, 20)\<close>
  is taken.
\<close>

theorem level_one_scenario:
  "\<exists>p k'. generateEnemies
       (st\<lparr>terrainObstacles := [\<lparr>ob_position = (0, 0, 0), ob_type = Rock, ob_size = 5\<rparr>]\<rparr>)
       rnd k 1 (0, 0.5, 0) =
         ([\<lparr>position = p, health = 85, etype = Tank, speed = 1.3\<rparr>], k') \<and>
     5 * 2.5 + 7 \<le> sqrt (fst p * fst p + snd (snd p) * snd (snd p)) \<and>
     isWithinMapBoundaries (fst p) (snd (snd p)) 100"
proof -
  let ?st = "st\<lparr>terrainObstacles := [\<lparr>ob_position = (0, 0, 0), ob_type = Rock, ob_size = 5\<rparr>]\<rparr>"
  from generateEnemies_level1 [of ?st rnd k "(0, 0.5, 0)"]
  obtain p k' where run: "generateEnemies ?st rnd k 1 (0, 0.5, 0) =
        ([\<lparr>position = p, health = 85, etype = Tank, speed = 1.3\<rparr>], k')"
    and w: "isWithinMapBoundaries (fst p) (snd (snd p)) defaultMapSize"
    and c: "p = (20, 0.5, 20) \<or> isClear p (terrainObstacles ?st)"
    by blast
  have "19.5 \<le> sqrt (fst p * fst p + snd (snd p) * snd (snd p))"
  proof (cases "p = (20, 0.5, 20)")
    case True
    have "(19.5::real) \<le> sqrt 800" by (rule sqrt_ge_of) simp_all
    with True show ?thesis by simp
  next
    case False
    with c have "isClear p [\<lparr>ob_position = (0, 0, 0), ob_type = Rock, ob_size = 5\<rparr>]" by simp
    then show ?thesis by (rule isClear_single)
  qed
  with run w show ?thesis by (auto simp: defaultMapSize_def)
qed

text \<open>
  C10. Whatever the \<open>level\<close> field of the store is, the callback of the orchestrator
  generates with level 1 and the player at \<open>(0, 0.5, 0)\<close>: it spawns exactly one enemy, a
  tank of health 85 and speed 1.3, and what it spawns does not depend on that field.
\<close>

theorem orchestrator_fixed_level:
  "(\<exists>p. generateEnemiesWhenReady (st\<lparr>level := l\<rparr>) rnd k =
        [\<lparr>position = p, health = 85, etype = Tank, speed = 1.3\<rparr>]) \<and>
   generateEnemiesWhenReady (st\<lparr>level := l\<rparr>) rnd k = fst (generateEnemies st rnd k 1 (0, 0.5, 0))"
proof -
  have same: "generateEnemies (st\<lparr>level := l\<rparr>) rnd k 1 (0, 0.5, 0) =
      generateEnemies st rnd k 1 (0, 0.5, 0)"
    by (simp add: generateEnemies_def initialLoop_level)
  from generateEnemies_level1 [of st rnd k "(0, 0.5, 0)"] same show ?thesis
    by (auto simp: generateEnemiesWhenReady_def)
qed

end
